theory Spec2Isabelle
  imports Complex_Main
begin

section \<open>Values exchanged with the collaborators\<close>

text \<open>
  Images and document layers are opaque to the orchestrator; they are handles here.
  Python's unbounded integers are \<open>int\<close>, its floats are idealised as \<open>real\<close>
  (the code only divides settings by 100, halves, compares and takes minima).
\<close>

type_synonym Image = nat
type_synonym Layer = nat
type_synonym Extent = "int \<times> int"

datatype Bounds = Bounds (b_x: int) (b_y: int) (b_width: int) (b_height: int)

definition b_extent :: "Bounds \<Rightarrow> Extent" where
  "b_extent b = (b_width b, b_height b)"

datatype py_error = AssertionError string | IndexError | KeyError | NetworkError string

datatype InpaintMode = automatic | fill | custom | remove_object | replace_background

datatype InpaintContext = ctx_automatic | mask_bounds | entire_image | layer_bounds

record Settings =
  selection_grow :: real
  selection_feather :: real
  selection_padding :: real
  batch_size :: int
  auto_preview :: bool

section \<open>Selection modifiers\<close>

record SelectionModifiers =
  grow :: real
  feather :: real
  padding :: real
  invert :: bool

text \<open>\<open>get_selection_modifiers\<close> of model.py: two independent \<open>if\<close> statements.\<close>

definition get_selection_modifiers :: "Settings \<Rightarrow> InpaintMode \<Rightarrow> SelectionModifiers" where
  "get_selection_modifiers s inpaint_mode =
     (let g0 = selection_grow s / 100;
          f0 = selection_feather s / 100;
          p0 = selection_padding s / 100;
          f1 = (if inpaint_mode = remove_object then min f0 (g0 * 0.5) else f0)
      in if inpaint_mode = replace_background
         then \<lparr>grow = min g0 0.01, feather = min f1 0.01, padding = p0, invert = True\<rparr>
         else \<lparr>grow = g0, feather = f1, padding = p0, invert = False\<rparr>)"

section \<open>Custom inpaint context\<close>

record CustomInpaint =
  inpaint_mode_of :: InpaintMode
  context_of :: InpaintContext
  context_layer_id :: Layer

text \<open>
  \<open>CustomInpaint.get_context\<close>. The collaborators it reads are parameters: the canvas
  extent, the layer observer's \<open>find\<close> (giving the bounds of a layer that still exists)
  and \<open>Bounds.expand\<close>.
\<close>

definition get_context ::
  "(Bounds \<Rightarrow> Bounds \<Rightarrow> Bounds) \<Rightarrow> (Layer \<Rightarrow> Bounds option) \<Rightarrow> Extent \<Rightarrow>
   CustomInpaint \<Rightarrow> Bounds option \<Rightarrow> Bounds option" where
  "get_context expand layers_find doc_extent ci msk =
     (case msk of
        None \<Rightarrow> None
      | Some mb \<Rightarrow>
          if inpaint_mode_of ci \<noteq> custom then None
          else if context_of ci = mask_bounds then Some mb
          else if context_of ci = entire_image then Some (Bounds 0 0 (fst doc_extent) (snd doc_extent))
          else if context_of ci = layer_bounds then
            (case layers_find (context_layer_id ci) of
               Some lb \<Rightarrow> Some (expand lb mb)
             | None \<Rightarrow> None)
          else None)"

text \<open>
  The use in \<open>Model.generate\<close>:
  \<open>image_bounds = self.inpaint.get_context(self, mask) or image_bounds\<close>.
\<close>

definition generate_image_bounds :: "Bounds \<Rightarrow> Bounds option \<Rightarrow> Bounds" where
  "generate_image_bounds image_bounds ctx = (case ctx of None \<Rightarrow> image_bounds | Some b \<Rightarrow> b)"

section \<open>Jobs and the job queue\<close>

datatype JobKind =
  diffusion | live_preview | upscaling | control_layer | animation_frame | animation_batch

datatype JobState = queued | running | finished | cancelled

record JobParams =
  prompt :: string
  negative_prompt :: string
  bounds :: Bounds
  strength :: real
  seed :: int
  frame :: "int \<times> int \<times> int"
  animation_id :: string

record Job =
  job_id :: "string option"
  kind :: JobKind
  state :: JobState
  params :: JobParams
  results :: "Image list"
  control :: "nat option"

record JobQueue =
  entries :: "Job list"
  selection :: "(string \<times> nat) option"

text \<open>
  Modelled from the spec: the module \<open>jobs.py\<close> (\<open>Job\<close>, \<open>JobQueue\<close>) is not among the
  sources. The queue is the ordered sequence of jobs, insertion order being submission
  order; a new job is \<open>queued\<close>, has no id and no results. A job object held by the caller
  is its position in \<open>entries\<close>. \<open>control\<close> is the handle of the control layer definition
  that spawned a control-image job.
\<close>

definition add ::
  "JobQueue \<Rightarrow> JobKind \<Rightarrow> string \<Rightarrow> string \<Rightarrow> Bounds \<Rightarrow> real \<Rightarrow> int \<Rightarrow> JobQueue" where
  "add q k pos neg b str sd =
     q\<lparr>entries := entries q @
        [\<lparr>job_id = None, kind = k, state = queued,
          params = \<lparr>prompt = pos, negative_prompt = neg, bounds = b, strength = str,
                    seed = sd, frame = (0, 0, 0), animation_id = []\<rparr>,
          results = [], control = None\<rparr>]\<rparr>"

text \<open>Modelled from the spec: \<open>JobQueue.find\<close> looks a job up by its backend id.\<close>

fun find_entry :: "Job list \<Rightarrow> string \<Rightarrow> nat option" where
  "find_entry [] jid = None"
| "find_entry (j # js) jid =
     (if job_id j = Some jid then Some 0 else map_option Suc (find_entry js jid))"

definition find_job :: "JobQueue \<Rightarrow> string \<Rightarrow> nat option" where
  "find_job q jid = find_entry (entries q) jid"

text \<open>
  \<open>JobQueue.any_executing\<close> is not among the sources either. The orchestrator only asks
  it a yes/no question about the queue, so it is a parameter of the model (the field
  \<open>executing\<close> of the surroundings below). Two readings of it are at hand. Modelled from
  the spec: \<open>any_executing()\<close> is true iff at least one job has state \<open>queued\<close> or
  \<open>running\<close>. The narrower reading \<open>any_running\<close> counts the job the backend is working
  on only.
\<close>

definition any_executing :: "JobQueue \<Rightarrow> bool" where
  "any_executing q = (\<exists>j \<in> set (entries q). state j = queued \<or> state j = running)"


definition update_job :: "JobQueue \<Rightarrow> nat \<Rightarrow> (Job \<Rightarrow> Job) \<Rightarrow> JobQueue" where
  "update_job q i f = q\<lparr>entries := (entries q)[i := f (entries q ! i)]\<rparr>"

text \<open>
  Modelled from the spec: the transitions of section 4.3. \<open>notify_started\<close> takes
  \<open>queued\<close> to \<open>running\<close> and is idempotent; \<open>notify_finished\<close> and \<open>notify_cancelled\<close>
  leave from \<open>queued\<close> or \<open>running\<close>; \<open>finished\<close> and \<open>cancelled\<close> are terminal, so a
  notification for a job in a terminal state changes nothing and emits nothing.
  \<open>set_results\<close> stores the images; \<open>remove\<close> deletes the job whatever its state;
  \<open>select\<close> sets the single selection and notifies only on a net change.
\<close>

definition is_pending :: "Job \<Rightarrow> bool" where
  "is_pending j = (state j = queued \<or> state j = running)"

definition notify_started :: "JobQueue \<Rightarrow> nat \<Rightarrow> JobQueue" where
  "notify_started q i =
     (if state (entries q ! i) = queued then update_job q i (\<lambda>j. j\<lparr>state := running\<rparr>) else q)"

definition notify_finished :: "JobQueue \<Rightarrow> nat \<Rightarrow> JobQueue" where
  "notify_finished q i =
     (if is_pending (entries q ! i) then update_job q i (\<lambda>j. j\<lparr>state := finished\<rparr>) else q)"

definition notify_cancelled :: "JobQueue \<Rightarrow> nat \<Rightarrow> JobQueue" where
  "notify_cancelled q i =
     (if is_pending (entries q ! i) then update_job q i (\<lambda>j. j\<lparr>state := cancelled\<rparr>) else q)"

definition set_results :: "JobQueue \<Rightarrow> nat \<Rightarrow> Image list \<Rightarrow> JobQueue" where
  "set_results q i imgs = update_job q i (\<lambda>j. j\<lparr>results := imgs\<rparr>)"

definition remove :: "JobQueue \<Rightarrow> nat \<Rightarrow> JobQueue" where
  "remove q i = q\<lparr>entries := take i (entries q) @ drop (Suc i) (entries q)\<rparr>"

definition select :: "JobQueue \<Rightarrow> string \<Rightarrow> nat \<Rightarrow> JobQueue" where
  "select q jid idx = q\<lparr>selection := Some (jid, idx)\<rparr>"

section \<open>Messages, workflow inputs and the collaborators' state\<close>

datatype ClientEvent = ev_progress | ev_finished | ev_interrupted | ev_error

record ClientMessage =
  event :: ClientEvent
  msg_job_id :: string
  msg_progress :: real
  images :: "Image list"
  msg_result :: "string option"
  msg_error :: string

record TextInput =
  positive :: string
  negative :: string

record SamplingInput =
  sampling_strength :: real
  sampling_seed :: int

record InpaintParams =
  target_bounds :: Bounds

record WorkflowInput =
  wf_text :: "TextInput option"
  wf_sampling :: "SamplingInput option"
  wf_inpaint :: "InpaintParams option"

text \<open>
  File paths are kept symbolic: \<open>FramesFolder f s\<close> is
  \<open>Path(f).parent / Path(f).with_suffix(s)\<close> and \<open>FrameFile d n e\<close> is the file
  \<open>frame-n\<close> with extension \<open>e\<close> in folder \<open>d\<close>. Layer names built by f-strings are
  symbolic in the same way.
\<close>

datatype Path = FramesFolder string string | FrameFile Path int string

datatype LayerName =
    PreviewName string string
  | RecName nat nat string
  | GeneratedName int int string
  | PlainName string

text \<open>
  Calls into the collaborators (document, backend client, logger) are recorded, in order,
  as effects; calls into the job queue are recorded in a trace of their own.
\<close>

datatype Effect =
    LogUnknownJob ClientMessage
  | ClientEnqueue WorkflowInput bool
  | InsertLayer LayerName Image Bounds
  | InsertVectorLayer string string
  | SetLayerContent Layer Image Bounds
  | MoveToTop Layer
  | HideLayer Layer
  | SetLocked Layer bool
  | SetName Layer LayerName
  | RemoveLayer Layer
  | Resize Extent
  | ImportAnimation "Path list" int
  | SaveImage Image "Bounds option" Path
  | Mkdir Path
  | GenerateLive

datatype QueueCall =
    Q_add
  | Q_set_results nat "Image list"
  | Q_notify_started nat
  | Q_notify_finished nat
  | Q_notify_cancelled nat
  | Q_remove nat
  | Q_select string nat
  | Emit_job_finished Job

record Document =
  extent :: Extent
  doc_is_active :: bool
  current_time :: int
  filename :: string
  layers :: "Layer list"
  active_layer :: Layer
  next_layer :: Layer

record ControlLayer =
  is_pose :: bool
  layer_id :: Layer

record LiveWorkspace =
  is_active :: bool
  is_recording :: bool
  has_result :: bool
  live_result :: "Image option"
  live_result_bounds :: "Bounds option"
  live_keyframes_folder :: "Path option"
  keyframe_start :: nat
  keyframe_index :: nat
  live_keyframes :: "Path list"

record AnimationWorkspace =
  target_layer :: Layer
  anim_keyframes_folder :: "Path option"
  anim_keyframes :: "string \<Rightarrow> Path list option"

record Model =
  doc :: Document
  preview_layer :: "Layer option"
  model_prompt :: string
  controls :: "nat \<Rightarrow> ControlLayer"
  queue_front :: bool
  progress :: real
  jobs :: JobQueue
  error :: string
  live :: LiveWorkspace
  animation :: AnimationWorkspace
  effects :: "Effect list"
  trace :: "QueueCall list"
  client_calls :: nat

text \<open>
  What the surroundings decide: the settings, the reply of the backend to the n-th
  \<open>client.enqueue\<close> (a job id, or the error it raises), the numbers of the frame
  files that already exist in the live-frames folder, and the answer of
  \<open>JobQueue.any_executing\<close> for a queue.
\<close>

record Env =
  settings :: Settings
  enqueue_reply :: "nat \<Rightarrow> py_error + string"
  existing_frames :: "nat list"
  executing :: "JobQueue \<Rightarrow> bool"

text \<open>A call either returns a value or raises; both leave a model state behind.\<close>

datatype 'a outcome = Returns 'a Model | Raises py_error Model

fun final_model :: "'a outcome \<Rightarrow> Model" where
  "final_model (Returns v m) = m"
| "final_model (Raises e m) = m"

definition effect :: "Model \<Rightarrow> Effect \<Rightarrow> Model" where
  "effect m e = m\<lparr>effects := effects m @ [e]\<rparr>"

definition called :: "Model \<Rightarrow> QueueCall \<Rightarrow> Model" where
  "called m c = m\<lparr>trace := trace m @ [c]\<rparr>"

section \<open>The document collaborator\<close>

text \<open>
  Modelled from the spec: the host document is an external collaborator. Inserting a layer
  or importing an animation creates a fresh layer; an imported animation becomes the
  active layer (it is the layer that is named afterwards). Every call is recorded.
\<close>

definition insert_layer :: "Model \<Rightarrow> Effect \<Rightarrow> Layer \<times> Model" where
  "insert_layer m e =
     (let d = doc m; l = next_layer d
      in (l, m\<lparr>doc := d\<lparr>layers := layers d @ [l], next_layer := Suc l\<rparr>,
                effects := effects m @ [e]\<rparr>))"

definition doc_import_animation :: "Model \<Rightarrow> Path list \<Rightarrow> int \<Rightarrow> Model" where
  "doc_import_animation m paths start =
     (let d = doc m; l = next_layer d
      in m\<lparr>doc := d\<lparr>layers := layers d @ [l], active_layer := l, next_layer := Suc l\<rparr>,
           effects := effects m @ [ImportAnimation paths start]\<rparr>)"

section \<open>Model: progress, errors, preview\<close>

definition report_progress :: "Model \<Rightarrow> real \<Rightarrow> Model" where
  "report_progress m v = m\<lparr>progress := v\<rparr>"

definition clear_error :: "Model \<Rightarrow> Model" where
  "clear_error m = (if error m \<noteq> [] then m\<lparr>error := []\<rparr> else m)"

text \<open>
  \<open>Model.generate_live\<close> assembles its request from the collaborators, clears the error
  and hands \<open>_generate\<close> to \<open>eventloop.run\<close>. Modelled from the spec: the event loop is
  not among the sources; a submitted coroutine runs later, not inside the caller
  (section 5). So \<open>generate_live\<close> is the recorded effect \<open>GenerateLive\<close> together with
  \<open>clear_error\<close>.
\<close>

definition generate_live :: "Model \<Rightarrow> Model" where
  "generate_live m = clear_error (effect m GenerateLive)"

definition hide_preview :: "Model \<Rightarrow> Model" where
  "hide_preview m =
     (case preview_layer m of Some l \<Rightarrow> effect m (HideLayer l) | None \<Rightarrow> m)"

definition show_preview :: "Model \<Rightarrow> string \<Rightarrow> nat \<Rightarrow> unit outcome" where
  "show_preview m jid index =
     (case find_job (jobs m) jid of
        None \<Rightarrow> Raises (AssertionError ''Cannot show preview, invalid job id'') m
      | Some i \<Rightarrow>
          (let job = entries (jobs m) ! i;
               name = PreviewName ''Preview'' (prompt (params job));
               m1 = (case preview_layer m of
                       Some l \<Rightarrow> if l \<notin> set (layers (doc m)) then m\<lparr>preview_layer := None\<rparr> else m
                     | None \<Rightarrow> m)
           in case preview_layer m1 of
                Some l \<Rightarrow>
                  (let m2 = effect m1 (SetName l name)
                   in if index < length (results job)
                      then Returns ()
                             (effect (effect m2 (SetLayerContent l (results job ! index)
                                                   (bounds (params job))))
                                     (MoveToTop l))
                      else Raises IndexError m2)
              | None \<Rightarrow>
                  if index < length (results job)
                  then (let (l, m2) = insert_layer m1
                                        (InsertLayer name (results job ! index) (bounds (params job)))
                        in Returns () (effect (m2\<lparr>preview_layer := Some l\<rparr>) (SetLocked l True)))
                  else Raises IndexError m1))"

definition update_preview :: "Model \<Rightarrow> unit outcome" where
  "update_preview m =
     (case selection (jobs m) of
        Some (jid, idx) \<Rightarrow> show_preview m jid idx
      | None \<Rightarrow> Returns () (hide_preview m))"

text \<open>
  \<open>self.jobs.select(job_id, index)\<close>: the queue's \<open>selection_changed\<close> signal is connected
  to \<open>update_preview\<close>.
\<close>

definition jobs_select :: "Model \<Rightarrow> string \<Rightarrow> nat \<Rightarrow> unit outcome" where
  "jobs_select m jid idx =
     (let changed = (selection (jobs m) \<noteq> Some (jid, idx));
          m1 = called (m\<lparr>jobs := select (jobs m) jid idx\<rparr>) (Q_select jid idx)
      in if changed then update_preview m1 else Returns () m1)"

definition add_control_layer :: "Model \<Rightarrow> Job \<Rightarrow> string option \<Rightarrow> Layer outcome" where
  "add_control_layer m job res =
     (case control job of
        None \<Rightarrow> Raises (AssertionError []) m
      | Some c \<Rightarrow>
          if kind job \<noteq> control_layer then Raises (AssertionError []) m
          else if is_pose (controls m c) \<and> res \<noteq> None then
            (let (l, m1) = insert_layer m (InsertVectorLayer (prompt (params job)) (the res))
             in Returns l m1)
          else if length (results job) > 0 then
            (let (l, m1) = insert_layer m
                             (InsertLayer (PlainName (prompt (params job))) (results job ! 0)
                                (bounds (params job)))
             in Returns l m1)
          else Returns (active_layer (doc m)) m)"

definition add_upscale_layer :: "Model \<Rightarrow> Job \<Rightarrow> unit outcome" where
  "add_upscale_layer m job =
     (if kind job \<noteq> upscaling then Raises (AssertionError []) m
      else if \<not> length (results job) > 0
      then Raises (AssertionError ''Upscaling job did not produce an image'') m
      else
        (let m1 = (case preview_layer m of
                     Some l \<Rightarrow>
                       (effect m (RemoveLayer l))
                         \<lparr>doc := (doc m)\<lparr>layers := removeAll l (layers (doc m))\<rparr>,
                          preview_layer := None\<rparr>
                   | None \<Rightarrow> m);
             m2 = (effect m1 (Resize (b_extent (bounds (params job)))))
                    \<lparr>doc := (doc m1)\<lparr>extent := b_extent (bounds (params job))\<rparr>\<rparr>;
             (l, m3) = insert_layer m2
                         (InsertLayer (PlainName (prompt (params job))) (results job ! 0)
                            (bounds (params job)))
         in Returns () m3))"

section \<open>Live workspace\<close>

text \<open>
  The loop of \<open>_start_recording\<close> that skips the frame files already on disk. The folder
  holds finitely many files, which is what makes it end.
\<close>

function first_unused_frame :: "nat list \<Rightarrow> nat \<Rightarrow> nat" where
  "first_unused_frame fs k = (if k \<in> set fs then first_unused_frame fs (Suc k) else k)"
  by pat_completeness auto
termination
proof (relation "measure (\<lambda>(fs, k). Suc (Max (insert 0 (set fs))) - k)")
  show "wf (measure (\<lambda>(fs, k). Suc (Max (insert 0 (set fs))) - k))"
    by simp
next
  fix fs :: "nat list" and k :: nat
  assume "k \<in> set fs"
  then have "k \<le> Max (insert 0 (set fs))"
    by (intro Max_ge) auto
  then show "((fs, Suc k), (fs, k)) \<in> measure (\<lambda>(fs, k). Suc (Max (insert 0 (set fs))) - k)"
    by simp
qed

definition start_recording' :: "Env \<Rightarrow> Model \<Rightarrow> bool \<times> Model" where
  "start_recording' env m =
     (if filename (doc m) \<noteq> [] then
        (let folder = FramesFolder (filename (doc m)) ''.live-frames'';
             m1 = effect m (Mkdir folder);
             idx = first_unused_frame (existing_frames env) (keyframe_index (live m1))
         in (True, m1\<lparr>live := (live m1)\<lparr>live_keyframes_folder := Some folder,
                                          keyframe_index := idx, keyframe_start := idx\<rparr>\<rparr>))
      else (False, m\<lparr>live := (live m)\<lparr>live_keyframes_folder := None\<rparr>\<rparr>))"

definition save_frame' :: "Model \<Rightarrow> Image \<Rightarrow> Bounds \<Rightarrow> unit outcome" where
  "save_frame' m img bnds =
     (case live_keyframes_folder (live m) of
        None \<Rightarrow> Raises (AssertionError []) m
      | Some folder \<Rightarrow>
          (let file = FrameFile folder (int (keyframe_index (live m))) ''.webp'';
               m1 = m\<lparr>live := (live m)\<lparr>keyframe_index := keyframe_index (live m) + 1\<rparr>\<rparr>;
               crop = (if b_extent bnds \<noteq> extent (doc m1) then Some bnds else None);
               m2 = effect m1 (SaveImage img crop file)
           in Returns () (m2\<lparr>live := (live m2)\<lparr>live_keyframes := live_keyframes (live m2) @ [file]\<rparr>\<rparr>)))"

definition set_result :: "Model \<Rightarrow> Image \<Rightarrow> Bounds \<Rightarrow> unit outcome" where
  "set_result m v bnds =
     (let m1 = m\<lparr>live := (live m)\<lparr>live_result := Some v, live_result_bounds := Some bnds,
                                    has_result := True\<rparr>\<rparr>
      in if is_recording (live m1) then save_frame' m1 v bnds else Returns () m1)"

definition live_import_animation' :: "Model \<Rightarrow> Model" where
  "live_import_animation' m =
     (let m1 = doc_import_animation m (live_keyframes (live m)) (int (keyframe_start (live m)));
          s = keyframe_start (live m1);
          e = keyframe_start (live m1) + length (live_keyframes (live m1));
          m2 = effect m1 (SetName (active_layer (doc m1)) (RecName s e (model_prompt m1)))
      in m2\<lparr>live := (live m2)\<lparr>live_keyframes := []\<rparr>\<rparr>)"

definition live_flags :: "Model \<Rightarrow> nat" where
  "live_flags m =
     (if is_active (live m) then 1 else 0) + (if is_recording (live m) then 1 else 0)"

text \<open>
  \<open>is_active\<close> and \<open>is_recording\<close> are declared as properties with the setters \<open>toggle\<close>
  and \<open>toggle_record\<close>: an assignment to one of them is a call of its setter, which
  stores the value in the underscored field. \<open>Model.report_error\<close> assigns \<open>is_active\<close>.
  The three call each other.
\<close>

function toggle :: "Env \<Rightarrow> Model \<Rightarrow> bool \<Rightarrow> Model"
  and toggle_record :: "Env \<Rightarrow> Model \<Rightarrow> bool \<Rightarrow> Model"
  and report_error :: "Env \<Rightarrow> Model \<Rightarrow> string \<Rightarrow> Model"
where
  "toggle env m active =
     (if is_active (live m) \<noteq> active then
        (if active then generate_live (m\<lparr>live := (live m)\<lparr>is_active := active\<rparr>\<rparr>)
         else toggle_record env (m\<lparr>live := (live m)\<lparr>is_active := active\<rparr>\<rparr>) False)
      else m)"
| "toggle_record env m active =
     (if is_recording (live m) \<noteq> active then
        (if active \<and> \<not> fst (start_recording' env m) then
           report_error env (snd (start_recording' env m))
             ''Cannot save recorded frames, document must be saved first!''
         else if active then
           toggle env
             ((snd (start_recording' env m))
                \<lparr>live := (live (snd (start_recording' env m)))\<lparr>is_recording := active\<rparr>\<rparr>) active
         else
           live_import_animation'
             (toggle env (m\<lparr>live := (live m)\<lparr>is_recording := active\<rparr>\<rparr>) active))
      else m)"
| "report_error env m message = toggle env (m\<lparr>error := message\<rparr>) False"
  by pat_completeness auto
termination
  by (relation "measure (\<lambda>c. case c of
          Inl (env, m, a) \<Rightarrow> (if a then 0 else live_flags m)
        | Inr (Inl (env, m, a)) \<Rightarrow> (if a then 4 else live_flags m)
        | Inr (Inr (env, m, msg)) \<Rightarrow> 3)")
     (auto simp: live_flags_def)

definition live_handle_job_finished :: "Env \<Rightarrow> Model \<Rightarrow> Job \<Rightarrow> unit outcome" where
  "live_handle_job_finished env m job =
     (if kind job = live_preview then
        (case (if length (results job) > 0
               then set_result m (results job ! 0) (bounds (params job))
               else Returns () m) of
           Raises e m1 \<Rightarrow> Raises e m1
         | Returns u m1 \<Rightarrow>
             (let m2 = toggle env m1 (is_active (live m1) \<and> doc_is_active (doc m1))
              in if is_active (live m2) then Returns () (generate_live m2) else Returns () m2))
      else Returns () m)"

section \<open>Animation workspace\<close>

definition anim_import_animation' :: "Model \<Rightarrow> Job \<Rightarrow> unit outcome" where
  "anim_import_animation' m job =
     (case anim_keyframes (animation m) (animation_id (params job)) of
        None \<Rightarrow> Raises KeyError m
      | Some keyframes \<Rightarrow>
          (let m1 = m\<lparr>animation := (animation m)
                       \<lparr>anim_keyframes := (anim_keyframes (animation m))
                                             (animation_id (params job) := None)\<rparr>\<rparr>;
               (fr, start, end) = frame (params job);
               m2 = doc_import_animation m1 keyframes start;
               m3 = effect m2 (SetName (active_layer (doc m2))
                                 (GeneratedName start end (prompt (params job))))
           in Returns () (m3\<lparr>animation := (animation m3)\<lparr>target_layer := active_layer (doc m3)\<rparr>\<rparr>)))"

text \<open>
  \<open>AnimationWorkspace.handle_job_finished\<close>. \<open>collect_keyframe\<close> is its middle part: what
  the finished job appends to the list of frame files of its animation.
\<close>

definition collect_keyframe :: "Path \<Rightarrow> Job \<Rightarrow> Path list \<Rightarrow> Path list" where
  "collect_keyframe folder job keyframes =
     (if length (results job) > 0
      then keyframes @ [FrameFile folder (fst (frame (params job))) ''.png'']
      else if length keyframes > 0 then keyframes @ [last keyframes]
      else keyframes)"

definition anim_handle_job_finished :: "Env \<Rightarrow> Model \<Rightarrow> Job \<Rightarrow> unit outcome" where
  "anim_handle_job_finished env m job =
     (if kind job = animation_batch then
        (case anim_keyframes_folder (animation m) of
           None \<Rightarrow> Raises (AssertionError []) m
         | Some folder \<Rightarrow>
             (let (fr, start, end) = frame (params job);
                  aid = animation_id (params job);
                  keyframes = (case anim_keyframes (animation m) aid of
                                 None \<Rightarrow> [] | Some ks \<Rightarrow> ks);
                  m1 = (if length (results job) > 0
                        then effect m (SaveImage (results job ! 0) None
                                         (FrameFile folder fr ''.png''))
                        else m);
                  m2 = m1\<lparr>animation := (animation m1)
                            \<lparr>anim_keyframes := (anim_keyframes (animation m1))
                                 (aid \<mapsto> collect_keyframe folder job keyframes)\<rparr>\<rparr>
              in if fr = end then anim_import_animation' m2 job else Returns () m2))
      else if kind job = animation_frame then
        (if length (results job) > 0 then
           (if fst (frame (params job)) \<noteq> current_time (doc m)
            then Returns () (report_error env m ''Generated frame does not match current time'')
            else if target_layer (animation m) \<in> set (layers (doc m))
            then Returns () (effect m (SetLayerContent (target_layer (animation m))
                                         (results job ! 0) (bounds (params job))))
            else Returns () (report_error env m ''Target layer not found''))
         else Returns () m)
      else Returns () m)"

section \<open>Generation orchestrator\<close>

text \<open>
  \<open>self.jobs.notify_finished(job)\<close>. The queue's \<open>job_finished\<close> signal is connected to
  \<open>LiveWorkspace.handle_job_finished\<close> and then to \<open>AnimationWorkspace.handle_job_finished\<close>
  (the order of \<open>Model.__init__\<close>); the slots receive the job as it is after the
  transition.
\<close>

definition jobs_notify_finished :: "Env \<Rightarrow> Model \<Rightarrow> nat \<Rightarrow> unit outcome" where
  "jobs_notify_finished env m i =
     (let fires = is_pending (entries (jobs m) ! i);
          m1 = called (m\<lparr>jobs := notify_finished (jobs m) i\<rparr>) (Q_notify_finished i)
      in if fires then
           (let job = entries (jobs m1) ! i;
                m2 = called m1 (Emit_job_finished job)
            in case live_handle_job_finished env m2 job of
                 Raises e m3 \<Rightarrow> Raises e m3
               | Returns u m3 \<Rightarrow> anim_handle_job_finished env m3 job)
         else Returns () m1)"

text \<open>\<open>Model._enqueue_job\<close>; the job is the queue entry at position \<open>j\<close>.\<close>

definition enqueue_job' :: "Env \<Rightarrow> Model \<Rightarrow> nat \<Rightarrow> WorkflowInput \<Rightarrow> unit outcome" where
  "enqueue_job' env m j inputs =
     (let m1 = (if \<not> executing env (jobs m) then m\<lparr>progress := 0\<rparr> else m);
          reply = enqueue_reply env (client_calls m1);
          m2 = (effect m1 (ClientEnqueue inputs (queue_front m1)))
                 \<lparr>client_calls := Suc (client_calls m1)\<rparr>
      in case reply of
           Inl e \<Rightarrow> Raises e m2
         | Inr jid \<Rightarrow>
             Returns () (m2\<lparr>jobs := update_job (jobs m2) j (\<lambda>job. job\<lparr>job_id := Some jid\<rparr>)\<rparr>))"

text \<open>
  The loop \<open>for i in range(count)\<close> of \<open>Model._generate\<close>, from iteration \<open>i\<close> with \<open>n\<close>
  iterations left. \<open>sd\<close> is \<open>sampling.seed\<close>, which the loop body advances in place;
  \<open>res\<close> is the list \<open>result\<close> (queue positions of the jobs). The coroutine is taken
  as a whole: no other handler runs while it waits for the backend's reply.
\<close>

fun generate_loop ::
  "Env \<Rightarrow> WorkflowInput \<Rightarrow> SamplingInput \<Rightarrow> JobKind \<Rightarrow> string \<Rightarrow> string \<Rightarrow> Bounds \<Rightarrow>
   nat \<Rightarrow> nat \<Rightarrow> int \<Rightarrow> nat list \<Rightarrow> Model \<Rightarrow> nat list outcome" where
  "generate_loop env inp smp k pos neg b i 0 sd res m = Returns res m"
| "generate_loop env inp smp k pos neg b i (Suc n) sd res m =
     (let j = length (entries (jobs m));
          m1 = called (m\<lparr>jobs := add (jobs m) k pos neg b (sampling_strength smp) sd\<rparr>) Q_add
      in case enqueue_job' env m1 j
                (inp\<lparr>wf_sampling := Some (smp\<lparr>sampling_seed := sd\<rparr>)\<rparr>) of
           Raises e m2 \<Rightarrow> Raises e m2
         | Returns u m2 \<Rightarrow>
             generate_loop env inp smp k pos neg b (Suc i) n
               (sd + (int i + 1) * batch_size (settings env)) (res @ [j]) m2)"

definition generate' ::
  "Env \<Rightarrow> Model \<Rightarrow> WorkflowInput \<Rightarrow> Bounds \<Rightarrow> int \<Rightarrow> bool \<Rightarrow> nat list outcome" where
  "generate' env m inp bnds count is_live =
     (let inp1 = (case wf_inpaint inp of
                    None \<Rightarrow> inp
                  | Some ip \<Rightarrow>
                      inp\<lparr>wf_inpaint := Some (ip\<lparr>target_bounds :=
                             Bounds (b_x (target_bounds ip) - b_x bnds)
                                    (b_y (target_bounds ip) - b_y bnds)
                                    (b_width (target_bounds ip))
                                    (b_height (target_bounds ip))\<rparr>)\<rparr>);
          bnds1 = (case wf_inpaint inp of None \<Rightarrow> bnds | Some ip \<Rightarrow> target_bounds ip);
          job_kind = (if is_live then live_preview else diffusion)
      in case wf_text inp1 of
           None \<Rightarrow> Raises (AssertionError []) m
         | Some t \<Rightarrow>
             (case wf_sampling inp1 of
                None \<Rightarrow> Raises (AssertionError []) m
              | Some smp \<Rightarrow>
                  generate_loop env inp1 smp job_kind (positive t) (negative t) bnds1
                    0 (nat count) (sampling_seed smp) [] m))"

text \<open>\<open>_report_errors\<close>: whatever the coroutine raises becomes the reported error.\<close>

fun error_text :: "py_error \<Rightarrow> string" where
  "error_text (AssertionError s) = s"
| "error_text IndexError = ''IndexError''"
| "error_text KeyError = ''KeyError''"
| "error_text (NetworkError s) = s"

definition report_errors' :: "Env \<Rightarrow> 'a outcome \<Rightarrow> Model" where
  "report_errors' env r =
     (case r of Returns v m \<Rightarrow> m | Raises e m \<Rightarrow> report_error env m (error_text e))"

text \<open>\<open>Model.handle_message\<close>.\<close>

definition handle_finished :: "Env \<Rightarrow> Model \<Rightarrow> ClientMessage \<Rightarrow> nat \<Rightarrow> unit outcome" where
  "handle_finished env m msg i =
     (let m1 = (if images msg \<noteq> []
                then called (m\<lparr>jobs := set_results (jobs m) i (images msg)\<rparr>)
                       (Q_set_results i (images msg))
                else m);
          job = entries (jobs m1) ! i;
          r2 = (if kind job = control_layer then
                  (case control job of
                     None \<Rightarrow> Raises (AssertionError []) m1
                   | Some c \<Rightarrow>
                       (case add_control_layer m1 job (msg_result msg) of
                          Raises e m' \<Rightarrow> Raises e m'
                        | Returns l m' \<Rightarrow>
                            Returns () (m'\<lparr>controls := (controls m')
                                              (c := (controls m' c)\<lparr>layer_id := l\<rparr>)\<rparr>)))
                else if kind job = upscaling then add_upscale_layer m1 job
                else Returns () m1)
      in case r2 of
           Raises e m2 \<Rightarrow> Raises e m2
         | Returns u m2 \<Rightarrow>
             (case jobs_notify_finished env (m2\<lparr>progress := 1\<rparr>) i of
                Raises e m3 \<Rightarrow> Raises e m3
              | Returns u m3 \<Rightarrow>
                  if kind job \<noteq> diffusion
                  then Returns () (called (m3\<lparr>jobs := remove (jobs m3) i\<rparr>) (Q_remove i))
                  else if auto_preview (settings env) \<and> preview_layer m3 = None
                          \<and> job_id job \<noteq> None \<and> job_id job \<noteq> Some []
                  then jobs_select m3 (the (job_id job)) 0
                  else Returns () m3))"

definition handle_message :: "Env \<Rightarrow> Model \<Rightarrow> ClientMessage \<Rightarrow> unit outcome" where
  "handle_message env m msg =
     (case find_job (jobs m) (msg_job_id msg) of
        None \<Rightarrow> Returns () (effect m (LogUnknownJob msg))
      | Some i \<Rightarrow>
          (case event msg of
             ev_progress \<Rightarrow>
               Returns ()
                 (report_progress
                    (called (m\<lparr>jobs := notify_started (jobs m) i\<rparr>) (Q_notify_started i))
                    (msg_progress msg))
           | ev_finished \<Rightarrow> handle_finished env m msg i
           | ev_interrupted \<Rightarrow>
               Returns ()
                 (report_progress
                    (called (m\<lparr>jobs := notify_cancelled (jobs m) i\<rparr>) (Q_notify_cancelled i))
                    0)
           | ev_error \<Rightarrow>
               Returns ()
                 (report_error env
                    (called (m\<lparr>jobs := notify_cancelled (jobs m) i\<rparr>) (Q_notify_cancelled i))
                    (''Server execution error: '' @ msg_error msg))))"

section \<open>Auxiliary notions for the properties\<close>

text \<open>
  The seeds the loop of \<open>_generate\<close> hands out, from iteration \<open>i\<close> with \<open>n\<close> iterations
  left, and the closed form of the seed of the \<open>i\<close>-th job of a batch.
\<close>

fun loop_seeds :: "int \<Rightarrow> nat \<Rightarrow> nat \<Rightarrow> int \<Rightarrow> int list" where
  "loop_seeds B i 0 sd = []"
| "loop_seeds B i (Suc n) sd = sd # loop_seeds B (Suc i) n (sd + (int i + 1) * B)"

definition batch_seed :: "int \<Rightarrow> int \<Rightarrow> nat \<Rightarrow> int" where
  "batch_seed S B i = S + B * int (i * (i + 1) div 2)"

definition job_seed :: "Job \<Rightarrow> int" where
  "job_seed j = seed (params j)"

text \<open>The jobs a call has appended to a queue that had \<open>n\<close> entries before.\<close>

definition new_jobs :: "Model \<Rightarrow> Model \<Rightarrow> Job list" where
  "new_jobs m m' = drop (length (entries (jobs m))) (entries (jobs m'))"

text \<open>
  Concrete surroundings for evaluating the model: the state \<open>Model.__init__\<close> builds for a
  saved document, a backend that accepts every request and names the n-th job by n+1
  letters, and settings with a given batch size.
\<close>

definition init_model :: Model where
  "init_model =
     \<lparr>doc = \<lparr>extent = (512, 512), doc_is_active = True, current_time = 0,
             filename = ''a.kra'', layers = [0], active_layer = 0, next_layer = 1\<rparr>,
      preview_layer = None, model_prompt = ''p'',
      controls = (\<lambda>c. \<lparr>is_pose = False, layer_id = 0\<rparr>),
      queue_front = False, progress = 0,
      jobs = \<lparr>entries = [], selection = None\<rparr>, error = [],
      live = \<lparr>is_active = False, is_recording = False, has_result = False,
              live_result = None, live_result_bounds = None, live_keyframes_folder = None,
              keyframe_start = 0, keyframe_index = 0, live_keyframes = []\<rparr>,
      animation = \<lparr>target_layer = 0, anim_keyframes_folder = None,
                   anim_keyframes = (\<lambda>a. None)\<rparr>,
      effects = [], trace = [], client_calls = 0\<rparr>"

definition test_env :: "int \<Rightarrow> Env" where
  "test_env B =
     \<lparr>settings = \<lparr>selection_grow = 5, selection_feather = 5, selection_padding = 7,
                  batch_size = B, auto_preview = False\<rparr>,
      enqueue_reply = (\<lambda>n. Inr (replicate (Suc n) CHR ''j'')),
      existing_frames = [], executing = any_executing\<rparr>"

definition test_input :: "int \<Rightarrow> WorkflowInput" where
  "test_input S =
     \<lparr>wf_text = Some \<lparr>positive = ''p'', negative = []\<rparr>,
      wf_sampling = Some \<lparr>sampling_strength = 1, sampling_seed = S\<rparr>,
      wf_inpaint = None\<rparr>"


text \<open>How many live generations have been triggered so far.\<close>

definition live_submissions :: "Model \<Rightarrow> nat" where
  "live_submissions m = length (filter (\<lambda>e. e = GenerateLive) (effects m))"

text \<open>
  The state the finished handler leaves behind after a first diffusion job: the job is
  \<open>finished\<close> with one image and the progress is 1. Nothing is queued or running.
\<close>

definition done_job :: Job where
  "done_job =
     \<lparr>job_id = Some ''j'', kind = diffusion, state = finished,
      params = \<lparr>prompt = ''p'', negative_prompt = [], bounds = Bounds 0 0 512 512,
                strength = 1, seed = 0, frame = (0, 0, 0), animation_id = []\<rparr>,
      results = [7], control = None\<rparr>"

definition idle_model :: Model where
  "idle_model = init_model\<lparr>jobs := \<lparr>entries = [done_job], selection = None\<rparr>, progress := 1\<rparr>"

text \<open>A model whose live loop is running and recording.\<close>

definition recording_model :: Model where
  "recording_model =
     init_model\<lparr>live := (live init_model)
       \<lparr>is_active := True, is_recording := True,
        live_keyframes_folder := Some (FramesFolder ''a.kra'' ''.live-frames'')\<rparr>\<rparr>"

definition live_job :: "Image list \<Rightarrow> Job" where
  "live_job imgs =
     \<lparr>job_id = Some ''l'', kind = live_preview, state = finished,
      params = \<lparr>prompt = ''p'', negative_prompt = [], bounds = Bounds 0 0 512 512,
                strength = 0.3, seed = 0, frame = (0, 0, 0), animation_id = []\<rparr>,
      results = imgs, control = None\<rparr>"

text \<open>
  What holds of the live workspace in every state the setters can reach from
  \<open>Model.__init__\<close>: recording implies that the loop is active and that the frames folder
  is known.
\<close>

definition live_consistent :: "Model \<Rightarrow> bool" where
  "live_consistent m =
     ((is_recording (live m) \<longrightarrow> is_active (live m))
      \<and> (is_recording (live m) \<longrightarrow> live_keyframes_folder (live m) \<noteq> None))"

text \<open>
  The frame files collected so far for an animation id, and the delivery of the
  \<open>job_finished\<close> notifications of several jobs, one after the other, to the animation
  workspace.
\<close>

definition collated :: "Model \<Rightarrow> string \<Rightarrow> Path list" where
  "collated m aid = (case anim_keyframes (animation m) aid of None \<Rightarrow> [] | Some ks \<Rightarrow> ks)"

fun anim_run :: "Env \<Rightarrow> Model \<Rightarrow> Job list \<Rightarrow> unit outcome" where
  "anim_run env m [] = Returns () m"
| "anim_run env m (j # js) =
     (case anim_handle_job_finished env m j of
        Raises e m' \<Rightarrow> Raises e m'
      | Returns u m' \<Rightarrow> anim_run env m' js)"

definition frame_index :: "Job \<Rightarrow> int" where
  "frame_index j = fst (frame (params j))"

definition frame_start :: "Job \<Rightarrow> int" where
  "frame_start j = fst (snd (frame (params j)))"

definition frame_end :: "Job \<Rightarrow> int" where
  "frame_end j = snd (snd (frame (params j)))"

text \<open>A batch animation job of animation \<open>a\<close> for frame \<open>fr\<close> of the range 0 to \<open>e\<close>.\<close>

definition anim_job :: "int \<Rightarrow> int \<Rightarrow> Image list \<Rightarrow> Job" where
  "anim_job fr e imgs =
     \<lparr>job_id = Some ''b'', kind = animation_batch, state = finished,
      params = \<lparr>prompt = ''p'', negative_prompt = [], bounds = Bounds 0 0 512 512,
                strength = 1, seed = 0, frame = (fr, 0, e), animation_id = ''a''\<rparr>,
      results = imgs, control = None\<rparr>"

definition anim_model :: Model where
  "anim_model =
     init_model\<lparr>animation := (animation init_model)
       \<lparr>anim_keyframes_folder := Some (FramesFolder ''a.kra'' ''.animation'')\<rparr>\<rparr>"

text \<open>The queue calls a handler has added to the trace.\<close>

definition new_trace :: "Model \<Rightarrow> Model \<Rightarrow> QueueCall list" where
  "new_trace m m' = drop (length (trace m)) (trace m')"

text \<open>The invariant of section 3: only a finished job has results.\<close>

definition results_only_when_finished :: "JobQueue \<Rightarrow> bool" where
  "results_only_when_finished q = (\<forall>j \<in> set (entries q). results j \<noteq> [] \<longrightarrow> state j = finished)"

text \<open>A finished message with one image for the job named \<open>jid\<close>.\<close>

definition finished_msg :: "string \<Rightarrow> Image list \<Rightarrow> ClientMessage" where
  "finished_msg jid imgs =
     \<lparr>event = ev_finished, msg_job_id = jid, msg_progress = 0, images = imgs,
      msg_result = None, msg_error = []\<rparr>"

text \<open>A queue holding one job of a given kind and state, without results.\<close>

definition one_job :: "JobKind \<Rightarrow> JobState \<Rightarrow> Job" where
  "one_job k s =
     \<lparr>job_id = Some ''j'', kind = k, state = s,
      params = \<lparr>prompt = ''p'', negative_prompt = [], bounds = Bounds 0 0 512 512,
                strength = 1, seed = 0, frame = (0, 0, 0), animation_id = []\<rparr>,
      results = [], control = None\<rparr>"

definition one_job_model :: "JobKind \<Rightarrow> JobState \<Rightarrow> Model" where
  "one_job_model k s = init_model\<lparr>jobs := \<lparr>entries = [one_job k s], selection = None\<rparr>\<rparr>"


section \<open>Properties\<close>

declare toggle.simps [simp del] toggle_record.simps [simp del] report_error.simps [simp del]

text \<open>
  C8. \<open>get_selection_modifiers\<close> depends only on the mode and the settings: for
  \<open>remove_object\<close> the feather is \<open>min feather (grow * 0.5)\<close> and the mask is not
  inverted; for \<open>replace_background\<close> grow and feather are capped at 0.01 and the mask is
  inverted; any other mode passes the settings through, not inverted.
\<close>

theorem get_selection_modifiers_policy:
  "get_selection_modifiers s remove_object =
     \<lparr>grow = selection_grow s / 100,
      feather = min (selection_feather s / 100) (selection_grow s / 100 * 0.5),
      padding = selection_padding s / 100, invert = False\<rparr>
   \<and> get_selection_modifiers s replace_background =
     \<lparr>grow = min (selection_grow s / 100) 0.01,
      feather = min (selection_feather s / 100) 0.01,
      padding = selection_padding s / 100, invert = True\<rparr>
   \<and> (m \<noteq> remove_object \<and> m \<noteq> replace_background \<longrightarrow>
        get_selection_modifiers s m =
          \<lparr>grow = selection_grow s / 100, feather = selection_feather s / 100,
           padding = selection_padding s / 100, invert = False\<rparr>)"
  by (simp add: get_selection_modifiers_def Let_def)

theorem get_selection_modifiers_policy_witness:
  "fill \<noteq> remove_object \<and> fill \<noteq> replace_background
   \<and> get_selection_modifiers
        \<lparr>selection_grow = 5, selection_feather = 5, selection_padding = 7,
         batch_size = 1, auto_preview = True\<rparr> fill =
      \<lparr>grow = 5 / 100, feather = 5 / 100, padding = 7 / 100, invert = False\<rparr>
   \<and> feather (get_selection_modifiers
        \<lparr>selection_grow = 5, selection_feather = 5, selection_padding = 7,
         batch_size = 1, auto_preview = True\<rparr> remove_object) = 1 / 40"
  using get_selection_modifiers_policy
    [of "\<lparr>selection_grow = 5, selection_feather = 5, selection_padding = 7,
          batch_size = 1, auto_preview = True\<rparr>" fill]
  by simp

text \<open>
  C7. With mode \<open>custom\<close> and context \<open>layer_bounds\<close>, a context layer that the layer
  observer no longer finds gives no override: \<open>get_context\<close> returns \<open>None\<close> (it has no
  error result at all) and \<open>generate\<close> keeps the bounds of the region resolver.
\<close>

theorem get_context_missing_layer:
  assumes "inpaint_mode_of ci = custom"
    and "context_of ci = layer_bounds"
    and "layers_find (context_layer_id ci) = None"
  shows "get_context expand layers_find doc_extent ci msk = None
       \<and> generate_image_bounds image_bounds
            (get_context expand layers_find doc_extent ci msk) = image_bounds"
  using assms by (simp add: get_context_def generate_image_bounds_def split: option.splits)

theorem get_context_missing_layer_witness:
  "get_context (\<lambda>a b. a) (\<lambda>l. None) (512, 512)
      \<lparr>inpaint_mode_of = custom, context_of = layer_bounds, context_layer_id = 3\<rparr>
      (Some (Bounds 10 10 64 64)) = None
   \<and> generate_image_bounds (Bounds 0 0 512 512)
        (get_context (\<lambda>a b. a) (\<lambda>l. None) (512, 512)
           \<lparr>inpaint_mode_of = custom, context_of = layer_bounds, context_layer_id = 3\<rparr>
           (Some (Bounds 10 10 64 64))) = Bounds 0 0 512 512"
  using get_context_missing_layer
    [of "\<lparr>inpaint_mode_of = custom, context_of = layer_bounds, context_layer_id = 3\<rparr>"
        "\<lambda>l. None" "\<lambda>a b. a" "(512, 512)" "Some (Bounds 10 10 64 64)" "Bounds 0 0 512 512"]
  by (simp add: generate_image_bounds_def)

subsection \<open>Batch seeds\<close>

lemma update_job_seeds:
  "map job_seed (entries (update_job q j (\<lambda>job. job\<lparr>job_id := v\<rparr>))) =
   map job_seed (entries q)"
proof (cases "j < length (entries q)")
  case True
  then show ?thesis
    by (simp add: update_job_def map_update list_update_same_conv job_seed_def)
next
  case False
  then show ?thesis
    by (simp add: update_job_def list_update_beyond)
qed

lemma enqueue_job'_seeds:
  "map job_seed (entries (jobs (final_model (enqueue_job' env m j inp)))) =
   map job_seed (entries (jobs m))"
  by (simp add: enqueue_job'_def Let_def effect_def update_job_seeds split: sum.splits)

lemma enqueue_job'_returns:
  "enqueue_reply env (client_calls m) = Inr jid \<Longrightarrow>
   \<exists>m'. enqueue_job' env m j inp = Returns () m' \<and> client_calls m' = Suc (client_calls m)"
  by (simp add: enqueue_job'_def Let_def effect_def)

lemma generate_loop_seeds:
  "\<exists>k \<le> n. map job_seed
              (entries (jobs (final_model (generate_loop env inp smp kd pos neg b i n sd res m)))) =
            map job_seed (entries (jobs m)) @ take k (loop_seeds B' i n sd)"
  if "B' = batch_size (settings env)"
  using that
proof (induction n arbitrary: i sd res m)
  case 0
  then show ?case by simp
next
  case (Suc n)
  let ?m1 = "called (m\<lparr>jobs := add (jobs m) kd pos neg b (sampling_strength smp) sd\<rparr>) Q_add"
  let ?inp = "inp\<lparr>wf_sampling := Some (smp\<lparr>sampling_seed := sd\<rparr>)\<rparr>"
  let ?r = "enqueue_job' env ?m1 (length (entries (jobs m))) ?inp"
  have m1: "map job_seed (entries (jobs ?m1)) = map job_seed (entries (jobs m)) @ [sd]"
    by (simp add: called_def add_def job_seed_def)
  have r: "map job_seed (entries (jobs (final_model ?r))) =
           map job_seed (entries (jobs m)) @ [sd]"
    using enqueue_job'_seeds[of env ?m1 "length (entries (jobs m))" ?inp] m1 by simp
  show ?case
  proof (cases ?r)
    case (Raises e m2)
    then have "map job_seed
                 (entries (jobs (final_model
                    (generate_loop env inp smp kd pos neg b i (Suc n) sd res m)))) =
               map job_seed (entries (jobs m)) @ take 1 (loop_seeds B' i (Suc n) sd)"
      using r by (simp add: Let_def)
    then show ?thesis by (intro exI[of _ 1]) simp
  next
    case (Returns u m2)
    from Suc.IH[OF Suc.prems, of "Suc i" "sd + (int i + 1) * batch_size (settings env)"
        "res @ [length (entries (jobs m))]" m2]
    obtain k where k: "k \<le> n"
      "map job_seed
         (entries (jobs (final_model
            (generate_loop env inp smp kd pos neg b (Suc i) n
               (sd + (int i + 1) * batch_size (settings env))
               (res @ [length (entries (jobs m))]) m2)))) =
       map job_seed (entries (jobs m2)) @
       take k (loop_seeds B' (Suc i) n (sd + (int i + 1) * batch_size (settings env)))"
      by blast
    have "map job_seed (entries (jobs m2)) = map job_seed (entries (jobs m)) @ [sd]"
      using r Returns by simp
    with k Returns Suc.prems
    have "map job_seed
            (entries (jobs (final_model
               (generate_loop env inp smp kd pos neg b i (Suc n) sd res m)))) =
          map job_seed (entries (jobs m)) @ take (Suc k) (loop_seeds B' i (Suc n) sd)"
      by (simp add: Let_def)
    with k(1) show ?thesis by (intro exI[of _ "Suc k"]) simp
  qed
qed

lemma triangle_Suc: "Suc i * (Suc i + 1) div 2 = i * (i + 1) div 2 + Suc i"
proof -
  have "Suc i * (Suc i + 1) = i * (i + 1) + 2 * Suc i" by simp
  then show ?thesis by simp
qed

lemma length_loop_seeds: "length (loop_seeds B i n sd) = n"
  by (induction n arbitrary: i sd) auto

lemma loop_seeds_nth:
  "k < n \<Longrightarrow>
   loop_seeds B i n sd ! k = sd + B * (int ((i + k) * (i + k + 1) div 2) - int (i * (i + 1) div 2))"
proof (induction n arbitrary: i sd k)
  case 0
  then show ?case by simp
next
  case (Suc n)
  show ?case
  proof (cases k)
    case 0
    then show ?thesis by simp
  next
    case (Suc k')
    with Suc.prems have "k' < n" by simp
    define X where "X = int ((i + k) * (i + k + 1) div 2)"
    define Y where "Y = int (i * (i + 1) div 2)"
    have idx: "Suc i + k' = i + k" using Suc by simp
    from Suc.IH[OF \<open>k' < n\<close>, of "Suc i" "sd + (int i + 1) * B"]
    have "loop_seeds B (Suc i) n (sd + (int i + 1) * B) ! k' =
          sd + (int i + 1) * B + B * (X - int (Suc i * (Suc i + 1) div 2))"
      unfolding idx X_def .
    moreover have "int (Suc i * (Suc i + 1) div 2) = Y + int i + 1"
      unfolding Y_def using triangle_Suc[of i] by simp
    moreover have "loop_seeds B i (Suc n) sd ! k =
                   loop_seeds B (Suc i) n (sd + (int i + 1) * B) ! k'"
      using Suc by simp
    ultimately have "loop_seeds B i (Suc n) sd ! k =
                     sd + (int i + 1) * B + B * (X - (Y + int i + 1))"
      by simp
    also have "\<dots> = sd + B * (X - Y)"
      by (simp add: algebra_simps)
    finally show ?thesis
      unfolding X_def Y_def .
  qed
qed

lemma loop_seeds_closed_form:
  "k < n \<Longrightarrow> loop_seeds B 0 n S ! k = batch_seed S B k"
  using loop_seeds_nth[of k n B 0 S] by (simp add: batch_seed_def)

lemma triangle_strict_mono: "i < j \<Longrightarrow> i * (i + 1) div 2 < j * (j + 1) div (2::nat)"
proof (induction j)
  case 0
  then show ?case by simp
next
  case (Suc j)
  have step: "j * (j + 1) div 2 < Suc j * (Suc j + 1) div 2"
    using triangle_Suc[of j] by simp
  show ?case
  proof (cases "i = j")
    case True
    with step show ?thesis by simp
  next
    case False
    with Suc.prems have "i < j" by simp
    from Suc.IH[OF this] step show ?thesis by simp
  qed
qed

lemma batch_seed_inj:
  assumes "B \<noteq> 0" and "batch_seed S B i = batch_seed S B j"
  shows "i = j"
proof (rule ccontr)
  assume "i \<noteq> j"
  then consider "i < j" | "j < i" by linarith
  then have "i * (i + 1) div 2 \<noteq> j * (j + 1) div 2"
    using triangle_strict_mono[of i j] triangle_strict_mono[of j i] by cases auto
  with assms show False by (simp add: batch_seed_def)
qed

lemma distinct_loop_seeds:
  assumes "B \<noteq> 0"
  shows "distinct (take k (loop_seeds B 0 n S))"
proof -
  have "i = j" if "i < min n k" "j < min n k"
      and "take k (loop_seeds B 0 n S) ! i = take k (loop_seeds B 0 n S) ! j" for i j
  proof -
    from that have "batch_seed S B i = batch_seed S B j"
      by (simp add: loop_seeds_closed_form)
    with assms show ?thesis by (rule batch_seed_inj)
  qed
  then show ?thesis
    by (simp add: distinct_conv_nth length_loop_seeds) (metis min.commute nat_neq_iff)
qed

lemma enqueue_job'_length:
  "length (entries (jobs (final_model (enqueue_job' env m j inp)))) = length (entries (jobs m))"
  using arg_cong[OF enqueue_job'_seeds[of env m j inp], of length] by simp

lemma generate_loop_complete:
  "\<forall>k < n. \<exists>jid. enqueue_reply env (client_calls m + k) = Inr jid \<Longrightarrow>
   \<exists>res' m'. generate_loop env inp smp kd pos neg b i n sd res m = Returns res' m'
     \<and> length (entries (jobs m')) = length (entries (jobs m)) + n"
proof (induction n arbitrary: i sd res m)
  case 0
  then show ?case by simp
next
  case (Suc n)
  let ?m1 = "called (m\<lparr>jobs := add (jobs m) kd pos neg b (sampling_strength smp) sd\<rparr>) Q_add"
  let ?inp = "inp\<lparr>wf_sampling := Some (smp\<lparr>sampling_seed := sd\<rparr>)\<rparr>"
  from Suc.prems obtain jid where "enqueue_reply env (client_calls m) = Inr jid"
    by force
  then have "enqueue_reply env (client_calls ?m1) = Inr jid"
    by (simp add: called_def)
  from enqueue_job'_returns[OF this, of "length (entries (jobs m))" ?inp]
  obtain m2 where m2: "enqueue_job' env ?m1 (length (entries (jobs m))) ?inp = Returns () m2"
    "client_calls m2 = Suc (client_calls ?m1)" by blast
  have len2: "length (entries (jobs m2)) = Suc (length (entries (jobs m)))"
    using enqueue_job'_length[of env ?m1 "length (entries (jobs m))" ?inp] m2(1)
    by (simp add: called_def add_def)
  have "\<forall>k < n. \<exists>jid. enqueue_reply env (client_calls m2 + k) = Inr jid"
  proof (intro allI impI)
    fix k assume "k < n"
    then have "Suc k < Suc n" by simp
    with Suc.prems obtain jid' where "enqueue_reply env (client_calls m + Suc k) = Inr jid'"
      by blast
    then show "\<exists>jid. enqueue_reply env (client_calls m2 + k) = Inr jid"
      using m2(2) by (simp add: called_def)
  qed
  from Suc.IH[OF this, of "Suc i" "sd + (int i + 1) * batch_size (settings env)"
      "res @ [length (entries (jobs m))]"]
  show ?case using m2(1) len2 by (simp add: Let_def)
qed

lemma generate'_seed_list:
  assumes "wf_sampling inp = Some smp"
  shows "\<exists>k \<le> nat count.
           map job_seed (new_jobs m (final_model (generate' env m inp bnds count is_live))) =
           take k (loop_seeds (batch_size (settings env)) 0 (nat count) (sampling_seed smp))"
proof (cases "wf_text inp")
  case None
  then have "final_model (generate' env m inp bnds count is_live) = m"
    by (simp add: generate'_def Let_def split: option.splits)
  then show ?thesis
    by (intro exI[of _ 0]) (simp add: new_jobs_def)
next
  case (Some t)
  define inp1 where "inp1 = (case wf_inpaint inp of
                    None \<Rightarrow> inp
                  | Some ip \<Rightarrow>
                      inp\<lparr>wf_inpaint := Some (ip\<lparr>target_bounds :=
                             Bounds (b_x (target_bounds ip) - b_x bnds)
                                    (b_y (target_bounds ip) - b_y bnds)
                                    (b_width (target_bounds ip))
                                    (b_height (target_bounds ip))\<rparr>)\<rparr>)"
  define bnds1 where "bnds1 = (case wf_inpaint inp of None \<Rightarrow> bnds | Some ip \<Rightarrow> target_bounds ip)"
  have same: "wf_text inp1 = Some t" "wf_sampling inp1 = Some smp"
    using Some assms by (simp_all add: inp1_def split: option.splits)
  have run: "generate' env m inp bnds count is_live =
             generate_loop env inp1 smp (if is_live then live_preview else diffusion)
               (positive t) (negative t) bnds1 0 (nat count) (sampling_seed smp) [] m"
    using same by (simp add: generate'_def Let_def inp1_def[symmetric] bnds1_def[symmetric])
  from generate_loop_seeds[of "batch_size (settings env)" env "nat count" inp1 smp
      "if is_live then live_preview else diffusion" "positive t" "negative t" bnds1 0
      "sampling_seed smp" "[]" m]
  obtain k where k: "k \<le> nat count"
    "map job_seed (entries (jobs (final_model (generate' env m inp bnds count is_live)))) =
     map job_seed (entries (jobs m)) @
     take k (loop_seeds (batch_size (settings env)) 0 (nat count) (sampling_seed smp))"
    unfolding run by blast
  have "map job_seed (new_jobs m (final_model (generate' env m inp bnds count is_live))) =
        drop (length (map job_seed (entries (jobs m))))
          (map job_seed (entries (jobs (final_model (generate' env m inp bnds count is_live)))))"
    by (simp add: new_jobs_def drop_map)
  also have "\<dots> = take k (loop_seeds (batch_size (settings env)) 0 (nat count) (sampling_seed smp))"
    unfolding k(2) by simp
  finally show ?thesis using k(1) by blast
qed

lemma generate'_complete:
  assumes "wf_sampling inp = Some smp" and "wf_text inp = Some t"
    and "\<forall>k < nat count. \<exists>jid. enqueue_reply env (client_calls m + k) = Inr jid"
  shows "\<exists>res' m'. generate' env m inp bnds count is_live = Returns res' m'
     \<and> length (entries (jobs m')) = length (entries (jobs m)) + nat count"
proof -
  have "wf_text (case wf_inpaint inp of None \<Rightarrow> inp | Some ip \<Rightarrow> inp\<lparr>wf_inpaint := Some (f ip)\<rparr>) = Some t"
    "wf_sampling (case wf_inpaint inp of None \<Rightarrow> inp | Some ip \<Rightarrow> inp\<lparr>wf_inpaint := Some (f ip)\<rparr>) = Some smp"
    for f
    using assms(1,2) by (simp_all split: option.splits)
  then show ?thesis
    using generate_loop_complete[OF assms(3)]
    by (simp add: generate'_def Let_def)
qed

text \<open>
  C1 (as the code has it). The loop adds \<open>(i + 1) * batch_size\<close> to a seed that already
  carries the earlier increments, so the i-th job of a batch started with seed \<open>S\<close> gets
  \<open>S + B * i * (i + 1) / 2\<close>, not \<open>S + i * B\<close>. The jobs created are at most \<open>count\<close>,
  exactly \<open>count\<close> when the backend accepts every request, and for \<open>B \<noteq> 0\<close> no two of
  them share a seed.
\<close>

theorem generate'_batch_seeds:
  assumes "wf_sampling inp = Some smp"
  shows "length (new_jobs m (final_model (generate' env m inp bnds count is_live))) \<le> nat count
     \<and> (\<forall>i < length (new_jobs m (final_model (generate' env m inp bnds count is_live))).
           job_seed (new_jobs m (final_model (generate' env m inp bnds count is_live)) ! i) =
           batch_seed (sampling_seed smp) (batch_size (settings env)) i)
     \<and> (batch_size (settings env) \<noteq> 0 \<longrightarrow>
           distinct (map job_seed
             (new_jobs m (final_model (generate' env m inp bnds count is_live)))))
     \<and> (wf_text inp \<noteq> None
          \<and> (\<forall>k < nat count. \<exists>jid. enqueue_reply env (client_calls m + k) = Inr jid) \<longrightarrow>
           length (new_jobs m (final_model (generate' env m inp bnds count is_live))) = nat count)"
proof -
  let ?js = "new_jobs m (final_model (generate' env m inp bnds count is_live))"
  let ?B = "batch_size (settings env)"
  from generate'_seed_list[OF assms, of count m env bnds is_live]
  obtain k where k: "k \<le> nat count"
    "map job_seed ?js = take k (loop_seeds ?B 0 (nat count) (sampling_seed smp))"
    by blast
  have len: "length ?js = k"
    using arg_cong[OF k(2), of length] k(1) by (simp add: length_loop_seeds)
  have seeds: "job_seed (?js ! i) = batch_seed (sampling_seed smp) ?B i" if "i < length ?js" for i
  proof -
    have "job_seed (?js ! i) = map job_seed ?js ! i"
      using that by simp
    also have "\<dots> = loop_seeds ?B 0 (nat count) (sampling_seed smp) ! i"
      using that len unfolding k(2) by simp
    also have "\<dots> = batch_seed (sampling_seed smp) ?B i"
      using that len k(1) by (intro loop_seeds_closed_form) simp
    finally show ?thesis .
  qed
  have dist: "distinct (map job_seed ?js)" if "?B \<noteq> 0"
    unfolding k(2) using that by (rule distinct_loop_seeds)
  have full: "length ?js = nat count"
    if "wf_text inp \<noteq> None"
      and "\<forall>k < nat count. \<exists>jid. enqueue_reply env (client_calls m + k) = Inr jid"
  proof -
    from that(1) obtain t where "wf_text inp = Some t" by blast
    from generate'_complete[OF assms this that(2), of bnds is_live]
    show ?thesis by (auto simp: new_jobs_def)
  qed
  from len k(1) seeds dist full show ?thesis by blast
qed

theorem generate'_batch_seeds_witness:
  "wf_sampling (test_input 5) = Some \<lparr>sampling_strength = 1, sampling_seed = 5\<rparr>
   \<and> length (new_jobs init_model
        (final_model (generate' (test_env 2) init_model (test_input 5) (Bounds 0 0 512 512) 3 False)))
       = nat 3
   \<and> job_seed (new_jobs init_model
        (final_model (generate' (test_env 2) init_model (test_input 5) (Bounds 0 0 512 512) 3 False)) ! 0)
       = 5
   \<and> job_seed (new_jobs init_model
        (final_model (generate' (test_env 2) init_model (test_input 5) (Bounds 0 0 512 512) 3 False)) ! 1)
       = 7
   \<and> job_seed (new_jobs init_model
        (final_model (generate' (test_env 2) init_model (test_input 5) (Bounds 0 0 512 512) 3 False)) ! 2)
       = 11
   \<and> distinct (map job_seed (new_jobs init_model
        (final_model (generate' (test_env 2) init_model (test_input 5) (Bounds 0 0 512 512) 3 False))))"
proof -
  have h: "wf_sampling (test_input 5) = Some \<lparr>sampling_strength = 1, sampling_seed = 5\<rparr>"
    by (simp add: test_input_def)
  have ok: "wf_text (test_input 5) \<noteq> None
            \<and> (\<forall>k < nat 3. \<exists>jid. enqueue_reply (test_env 2) (client_calls init_model + k) = Inr jid)"
    by (simp add: test_input_def test_env_def)
  have B: "batch_size (settings (test_env 2)) = 2"
    by (simp add: test_env_def)
  have T: "batch_seed 5 2 0 = 5" "batch_seed 5 2 1 = 7" "batch_seed 5 2 2 = 11"
    by (simp_all add: batch_seed_def)
  let ?js = "new_jobs init_model
        (final_model (generate' (test_env 2) init_model (test_input 5) (Bounds 0 0 512 512) 3 False))"
  from generate'_batch_seeds[OF h, of init_model "test_env 2" "Bounds 0 0 512 512" 3 False] ok
  have len: "length ?js = nat 3"
    and seeds: "\<forall>i < length ?js. job_seed (?js ! i) = batch_seed 5 2 i"
    and dist: "distinct (map job_seed ?js)"
    by (simp_all add: B)
  from len seeds have "job_seed (?js ! 0) = 5" "job_seed (?js ! 1) = 7" "job_seed (?js ! 2) = 11"
    using T by simp_all
  with h len dist show ?thesis by simp
qed

theorem generate'_seed_counterexample:
  "job_seed (new_jobs init_model
      (final_model (generate' (test_env 1) init_model (test_input 0) (Bounds 0 0 512 512) 3 False)) ! 2)
   \<noteq> 0 + 2 * 1"
  by (simp add: generate'_def test_input_def test_env_def init_model_def enqueue_job'_def
      add_def any_executing_def called_def effect_def update_job_def new_jobs_def job_seed_def
      Let_def eval_nat_numeral)

subsection \<open>Progress at the start of a burst\<close>

lemma enqueue_job'_progress:
  "progress (final_model (enqueue_job' env m j inp)) =
     (if executing env (jobs m) then progress m else 0)"
  by (simp add: enqueue_job'_def Let_def effect_def split: sum.splits)



lemma any_executing_add: "any_executing (add q k pos neg b str sd)"
  by (simp add: any_executing_def add_def)


text \<open>
  What the guard does under the spec's wording of \<open>any_executing\<close>: the job \<open>_generate\<close>
  has just added is queued, the answer is yes, and a burst leaves the progress alone.
\<close>

lemma generate'_progress_queued_reading:
  assumes "executing env = any_executing"
  shows "progress (final_model (generate' env m inp bnds count is_live)) = progress m"
proof -
  have "progress (final_model (generate_loop env inp' smp kd pos neg b i n sd res m')) = progress m'"
    for inp' smp kd pos neg b i n sd res m'
  proof (induction n arbitrary: i sd res m')
    case 0
    then show ?case by simp
  next
    case (Suc n)
    let ?m1 = "called (m'\<lparr>jobs := add (jobs m') kd pos neg b (sampling_strength smp) sd\<rparr>) Q_add"
    let ?inp = "inp'\<lparr>wf_sampling := Some (smp\<lparr>sampling_seed := sd\<rparr>)\<rparr>"
    let ?r = "enqueue_job' env ?m1 (length (entries (jobs m'))) ?inp"
    have p: "progress (final_model ?r) = progress m'"
      using assms by (simp add: enqueue_job'_progress called_def any_executing_add)
    show ?case
    proof (cases ?r)
      case (Raises e m2)
      with p show ?thesis by (simp add: Let_def)
    next
      case (Returns u m2)
      with p Suc.IH[of "Suc i" "sd + (int i + 1) * batch_size (settings env)"
          "res @ [length (entries (jobs m'))]" m2]
      show ?thesis by (simp add: Let_def)
    qed
  qed
  then show ?thesis
    by (simp add: generate'_def Let_def split: option.splits)
qed





subsection \<open>Unknown job ids\<close>


text \<open>
  C3. A message whose job id is not in the queue is logged and dropped: the handler
  returns (it does not raise), and the state it leaves differs from the one it found in
  the log only; queue, progress and error are untouched.
\<close>

theorem handle_message_unknown_job:
  assumes "find_job (jobs m) (msg_job_id msg) = None"
  shows "handle_message env m msg = Returns () (m\<lparr>effects := effects m @ [LogUnknownJob msg]\<rparr>)
     \<and> jobs (final_model (handle_message env m msg)) = jobs m
     \<and> progress (final_model (handle_message env m msg)) = progress m
     \<and> error (final_model (handle_message env m msg)) = error m
     \<and> trace (final_model (handle_message env m msg)) = trace m"
  using assms by (simp add: handle_message_def effect_def)

theorem handle_message_unknown_job_witness:
  "find_job (jobs idle_model)
     (msg_job_id \<lparr>event = ev_finished, msg_job_id = ''x'', msg_progress = 0, images = [3],
                   msg_result = None, msg_error = []\<rparr>) = None
   \<and> handle_message (test_env 1) idle_model
        \<lparr>event = ev_finished, msg_job_id = ''x'', msg_progress = 0, images = [3],
         msg_result = None, msg_error = []\<rparr> =
      Returns () (idle_model\<lparr>effects := effects idle_model @
        [LogUnknownJob \<lparr>event = ev_finished, msg_job_id = ''x'', msg_progress = 0, images = [3],
                        msg_result = None, msg_error = []\<rparr>]\<rparr>)
   \<and> jobs (final_model (handle_message (test_env 1) idle_model
        \<lparr>event = ev_finished, msg_job_id = ''x'', msg_progress = 0, images = [3],
         msg_result = None, msg_error = []\<rparr>)) = jobs idle_model"
proof -
  have h: "find_job (jobs idle_model)
     (msg_job_id \<lparr>event = ev_finished, msg_job_id = ''x'', msg_progress = 0, images = [3],
                   msg_result = None, msg_error = []\<rparr>) = None"
    by (simp add: find_job_def idle_model_def done_job_def)
  from handle_message_unknown_job[OF h, of "test_env 1"] h show ?thesis
    by simp
qed

subsection \<open>The live loop\<close>

lemma toggle_on:
  "toggle env m True =
     (if is_active (live m) then m
      else generate_live (m\<lparr>live := (live m)\<lparr>is_active := True\<rparr>\<rparr>))"
  by (simp add: toggle.simps[of env m True])

lemma toggle_off_inactive: "\<not> is_active (live m) \<Longrightarrow> toggle env m False = m"
  by (simp add: toggle.simps[of env m False])

lemma toggle_record_off:
  "toggle_record env m False =
     (if is_recording (live m)
      then live_import_animation' (toggle env (m\<lparr>live := (live m)\<lparr>is_recording := False\<rparr>\<rparr>) False)
      else m)"
  by (simp add: toggle_record.simps[of env m False])

lemma toggle_off:
  "toggle env m False =
     (if is_active (live m) then
        (if is_recording (live m)
         then live_import_animation'
                (m\<lparr>live := (live m)\<lparr>is_active := False, is_recording := False\<rparr>\<rparr>)
         else m\<lparr>live := (live m)\<lparr>is_active := False\<rparr>\<rparr>)
      else m)"
proof (cases "is_active (live m)")
  case False
  then show ?thesis by (simp add: toggle_off_inactive)
next
  case True
  let ?m1 = "m\<lparr>live := (live m)\<lparr>is_active := False\<rparr>\<rparr>"
  have 1: "toggle env m False = toggle_record env ?m1 False"
    using True by (simp add: toggle.simps[of env m False])
  have 2: "toggle env (?m1\<lparr>live := (live ?m1)\<lparr>is_recording := False\<rparr>\<rparr>) False =
           ?m1\<lparr>live := (live ?m1)\<lparr>is_recording := False\<rparr>\<rparr>"
    by (rule toggle_off_inactive) simp
  show ?thesis
    unfolding 1 toggle_record_off[of env ?m1] 2 using True by simp
qed

lemma report_error_eq: "report_error env m msg = toggle env (m\<lparr>error := msg\<rparr>) False"
  by (simp add: report_error.simps)

lemma live_submissions_update:
  "live_submissions (m\<lparr>error := e\<rparr>) = live_submissions m"
  "live_submissions (m\<lparr>live := l\<rparr>) = live_submissions m"
  by (simp_all add: live_submissions_def)

lemma live_import_animation'_frame:
  "error (live_import_animation' m) = error m"
  "jobs (live_import_animation' m) = jobs m"
  "trace (live_import_animation' m) = trace m"
  "progress (live_import_animation' m) = progress m"
  "preview_layer (live_import_animation' m) = preview_layer m"
  "animation (live_import_animation' m) = animation m"
  "is_active (live (live_import_animation' m)) = is_active (live m)"
  "is_recording (live (live_import_animation' m)) = is_recording (live m)"
  "live_keyframes_folder (live (live_import_animation' m)) = live_keyframes_folder (live m)"
  "live_submissions (live_import_animation' m) = live_submissions m"
  by (simp_all add: live_import_animation'_def doc_import_animation_def effect_def Let_def
      live_submissions_def)

lemma generate_live_frame:
  "jobs (generate_live m) = jobs m"
  "trace (generate_live m) = trace m"
  "progress (generate_live m) = progress m"
  "preview_layer (generate_live m) = preview_layer m"
  "animation (generate_live m) = animation m"
  "live (generate_live m) = live m"
  "doc (generate_live m) = doc m"
  "effects (generate_live m) = effects m @ [GenerateLive]"
  "live_submissions (generate_live m) = Suc (live_submissions m)"
  by (simp_all add: generate_live_def clear_error_def effect_def live_submissions_def)

lemma toggle_frame:
  "jobs (toggle env m a) = jobs m"
  "trace (toggle env m a) = trace m"
  "progress (toggle env m a) = progress m"
  "preview_layer (toggle env m a) = preview_layer m"
  "animation (toggle env m a) = animation m"
  by (cases a; simp add: toggle_on toggle_off live_import_animation'_frame generate_live_frame)+

lemma report_error_frame:
  "jobs (report_error env m msg) = jobs m"
  "trace (report_error env m msg) = trace m"
  "progress (report_error env m msg) = progress m"
  "preview_layer (report_error env m msg) = preview_layer m"
  "animation (report_error env m msg) = animation m"
  by (simp_all add: report_error_eq toggle_frame)

lemma report_error_live:
  "error (report_error env m msg) = msg"
  "\<not> is_active (live (report_error env m msg))"
  "is_active (live m) \<Longrightarrow> \<not> is_recording (live (report_error env m msg))"
  "\<not> is_recording (live m) \<Longrightarrow> \<not> is_recording (live (report_error env m msg))"
  "live_submissions (report_error env m msg) = live_submissions m"
  by (simp_all add: report_error_eq toggle_off live_import_animation'_frame live_submissions_update)

lemma set_result_frame:
  "is_active (live (final_model (set_result m v b))) = is_active (live m)"
  "is_recording (live (final_model (set_result m v b))) = is_recording (live m)"
  "live_keyframes_folder (live (final_model (set_result m v b))) = live_keyframes_folder (live m)"
  "doc (final_model (set_result m v b)) = doc m"
  "live_submissions (final_model (set_result m v b)) = live_submissions m"
  "jobs (final_model (set_result m v b)) = jobs m"
  "trace (final_model (set_result m v b)) = trace m"
  "progress (final_model (set_result m v b)) = progress m"
  "preview_layer (final_model (set_result m v b)) = preview_layer m"
  "animation (final_model (set_result m v b)) = animation m"
  by (simp_all add: set_result_def save_frame'_def effect_def Let_def live_submissions_def
      split: option.splits)

lemma live_handle_job_finished_inactive:
  assumes "\<not> is_active (live m)"
  shows "live_submissions (final_model (live_handle_job_finished env m job)) = live_submissions m"
proof (cases "kind job = live_preview")
  case False
  then show ?thesis by (simp add: live_handle_job_finished_def)
next
  case live: True
  show ?thesis
  proof (cases "results job = []")
    case True
    with live assms show ?thesis
      by (simp add: live_handle_job_finished_def toggle_off_inactive)
  next
    case False
    let ?r = "set_result m (results job ! 0) (bounds (params job))"
    have r: "\<not> is_active (live (final_model ?r))"
      "live_submissions (final_model ?r) = live_submissions m"
      using assms by (simp_all add: set_result_frame)
    show ?thesis
    proof (cases ?r)
      case (Raises e m1)
      with r live False show ?thesis
        by (simp add: live_handle_job_finished_def)
    next
      case (Returns u m1)
      with r live False show ?thesis
        by (simp add: live_handle_job_finished_def toggle_off_inactive)
    qed
  qed
qed

lemma live_consistent_init: "live_consistent init_model"
  by (simp add: live_consistent_def init_model_def)

lemma toggle_consistent: "live_consistent m \<Longrightarrow> live_consistent (toggle env m a)"
  by (cases a)
    (auto simp: live_consistent_def toggle_on toggle_off live_import_animation'_frame
      generate_live_frame)

lemma report_error_consistent:
  "live_consistent m \<Longrightarrow> live_consistent (report_error env m msg)"
  unfolding report_error_eq by (rule toggle_consistent) (simp add: live_consistent_def)

lemma toggle_record_consistent:
  assumes "live_consistent m"
  shows "live_consistent (toggle_record env m a)"
proof (cases a)
  case False
  show ?thesis
  proof (cases "is_recording (live m)")
    case True
    have "live_consistent (m\<lparr>live := (live m)\<lparr>is_recording := False\<rparr>\<rparr>)"
      by (simp add: live_consistent_def)
    from toggle_consistent[OF this, of env False] True False show ?thesis
      by (simp add: toggle_record_off live_consistent_def live_import_animation'_frame)
  next
    case rec: False
    with False assms show ?thesis by (simp add: toggle_record_off)
  qed
next
  case True
  show ?thesis
  proof (cases "is_recording (live m)")
    case rec: True
    with True assms show ?thesis by (simp add: toggle_record.simps[of env m True])
  next
    case rec: False
    show ?thesis
    proof (cases "filename (doc m) = []")
      case unsaved: True
      have "live_consistent (snd (start_recording' env m))"
        using rec unsaved by (simp add: start_recording'_def live_consistent_def)
      from report_error_consistent[OF this] rec unsaved True show ?thesis
        by (simp add: toggle_record.simps[of env m True] start_recording'_def)
    next
      case saved: False
      define m1 where "m1 = (snd (start_recording' env m))
                \<lparr>live := (live (snd (start_recording' env m)))\<lparr>is_recording := True\<rparr>\<rparr>"
      have m1: "is_recording (live m1)" "live_keyframes_folder (live m1) \<noteq> None"
        using saved by (simp_all add: m1_def start_recording'_def effect_def Let_def)
      have "toggle_record env m True = toggle env m1 True"
        using rec saved
        by (simp add: toggle_record.simps[of env m True] m1_def start_recording'_def Let_def)
      with m1 True show ?thesis
        by (simp add: toggle_on live_consistent_def generate_live_frame)
    qed
  qed
qed

lemma live_handle_job_finished_consistent:
  assumes "live_consistent m"
  shows "live_consistent (final_model (live_handle_job_finished env m job))"
proof (cases "kind job = live_preview \<and> results job \<noteq> []")
  case False
  with assms toggle_consistent[OF assms, of env "is_active (live m) \<and> doc_is_active (doc m)"]
  show ?thesis
    by (auto simp: live_handle_job_finished_def Let_def live_consistent_def generate_live_frame)
next
  case True
  let ?r = "set_result m (results job ! 0) (bounds (params job))"
  have c: "live_consistent (final_model ?r)"
    using assms by (simp add: live_consistent_def set_result_frame)
  show ?thesis
  proof (cases ?r)
    case (Raises e m1)
    with c True show ?thesis by (simp add: live_handle_job_finished_def)
  next
    case (Returns u m1)
    with c have "live_consistent m1" by simp
    from toggle_consistent[OF this, of env "is_active (live m1) \<and> doc_is_active (doc m1)"]
    show ?thesis using True Returns
      by (auto simp: live_handle_job_finished_def Let_def live_consistent_def generate_live_frame)
  qed
qed

text \<open>
  C9. \<open>report_error\<close> stores the message and assigns \<open>is_active = False\<close> through the
  setter \<open>toggle\<close>, which switches recording off as well (recording implies an active
  loop in every reachable state). No live generation is triggered by it, and none when a
  live job finishes afterwards.
\<close>

theorem report_error_stops_live_loop:
  "error (report_error env m msg) = msg
   \<and> \<not> is_active (live (report_error env m msg))
   \<and> (live_consistent m \<longrightarrow> \<not> is_recording (live (report_error env m msg)))
   \<and> live_submissions (report_error env m msg) = live_submissions m
   \<and> live_submissions (final_model (live_handle_job_finished env (report_error env m msg) job)) =
       live_submissions m"
proof -
  have "\<not> is_recording (live (report_error env m msg))" if "live_consistent m"
  proof (cases "is_recording (live m)")
    case True
    with that have "is_active (live m)" by (simp add: live_consistent_def)
    then show ?thesis by (rule report_error_live(3))
  next
    case False
    then show ?thesis by (rule report_error_live(4))
  qed
  moreover have "\<not> is_active (live (report_error env m msg))"
    by (rule report_error_live(2))
  from live_handle_job_finished_inactive[OF this]
  have "live_submissions
        (final_model (live_handle_job_finished env (report_error env m msg) job)) =
       live_submissions m"
    by (simp add: report_error_live)
  ultimately show ?thesis
    by (simp add: report_error_live)
qed

theorem report_error_stops_live_loop_witness:
  "live_consistent recording_model
   \<and> is_active (live recording_model) \<and> is_recording (live recording_model)
   \<and> error (report_error (test_env 1) recording_model ''boom'') = ''boom''
   \<and> \<not> is_active (live (report_error (test_env 1) recording_model ''boom''))
   \<and> \<not> is_recording (live (report_error (test_env 1) recording_model ''boom''))
   \<and> live_submissions (final_model (live_handle_job_finished (test_env 1)
         (report_error (test_env 1) recording_model ''boom'') (live_job [4]))) = 0"
proof -
  have h: "live_consistent recording_model"
    "is_active (live recording_model)" "is_recording (live recording_model)"
    "live_submissions recording_model = 0"
    by (simp_all add: live_consistent_def recording_model_def init_model_def live_submissions_def)
  from report_error_stops_live_loop[of "test_env 1" recording_model "''boom''" "live_job [4]"] h
  show ?thesis by simp
qed

text \<open>
  C10. When a \<open>live_preview\<close> job finishes while the loop is active and the document is
  the active one, exactly one further live generation is triggered and the loop stays
  active, with or without results. With zero results the stored result, the recorded
  frames and everything else are left as they were.
\<close>

theorem live_loop_resubmits:
  assumes "kind job = live_preview"
    and "is_active (live m)"
    and "doc_is_active (doc m)"
    and "live_consistent m"
  shows "\<exists>m'. live_handle_job_finished env m job = Returns () m'
     \<and> live_submissions m' = Suc (live_submissions m)
     \<and> last (effects m') = GenerateLive
     \<and> is_active (live m')
     \<and> (results job = [] \<longrightarrow> m' = generate_live m)
     \<and> (results job \<noteq> [] \<longrightarrow> live_result (live m') = Some (results job ! 0))"
proof (cases "results job = []")
  case True
  with assms show ?thesis
    by (simp add: live_handle_job_finished_def toggle_on generate_live_frame)
next
  case False
  have "\<exists>m1. set_result m (results job ! 0) (bounds (params job)) = Returns () m1
          \<and> live_result (live m1) = Some (results job ! 0)"
  proof (cases "is_recording (live m)")
    case True
    with assms(4) obtain folder where "live_keyframes_folder (live m) = Some folder"
      by (auto simp: live_consistent_def)
    with True show ?thesis
      by (simp add: set_result_def save_frame'_def effect_def Let_def)
  next
    case False
    then show ?thesis
      by (simp add: set_result_def)
  qed
  then obtain m1 where m1: "set_result m (results job ! 0) (bounds (params job)) = Returns () m1"
    "live_result (live m1) = Some (results job ! 0)"
    by blast
  have f: "is_active (live m1)" "doc_is_active (doc m1)" "live_submissions m1 = live_submissions m"
    using set_result_frame(1,4,5)[of m "results job ! 0" "bounds (params job)"] assms(2,3)
    by (simp_all add: m1)
  with False assms(1) m1 show ?thesis
    by (simp add: live_handle_job_finished_def toggle_on generate_live_frame)
qed

theorem live_loop_resubmits_witness:
  "kind (live_job []) = live_preview
   \<and> is_active (live recording_model) \<and> doc_is_active (doc recording_model)
   \<and> live_consistent recording_model
   \<and> live_handle_job_finished (test_env 1) recording_model (live_job []) =
       Returns () (generate_live recording_model)
   \<and> live_submissions (generate_live recording_model) = 1"
proof -
  have h: "kind (live_job []) = live_preview" "is_active (live recording_model)"
    "doc_is_active (doc recording_model)" "live_consistent recording_model"
    "results (live_job []) = []" "live_submissions recording_model = 0"
    by (simp_all add: live_job_def recording_model_def init_model_def live_consistent_def
        live_submissions_def)
  from live_loop_resubmits[OF h(1-4), of "test_env 1"] h show ?thesis
    by auto
qed

subsection \<open>Animation batches\<close>

lemma anim_step_nonterminal:
  assumes "anim_keyframes_folder (animation m) = Some f"
    and "kind j = animation_batch"
    and "animation_id (params j) = aid"
    and "frame_index j \<noteq> frame_end j"
  shows "\<exists>m'. anim_handle_job_finished env m j = Returns () m'
     \<and> anim_keyframes_folder (animation m') = Some f
     \<and> collated m' aid = collect_keyframe f j (collated m aid)"
proof -
  obtain fr st en where fr: "frame (params j) = (fr, st, en)"
    by (cases "frame (params j)") auto
  with assms(4) have "fr \<noteq> en"
    by (simp add: frame_index_def frame_end_def)
  with assms(1-3) fr show ?thesis
    by (simp add: anim_handle_job_finished_def Let_def collated_def effect_def)
qed

lemma anim_step_cache_hit:
  assumes "anim_keyframes_folder (animation m) = Some f"
    and "kind j = animation_batch"
    and "animation_id (params j) = aid"
    and "frame_index j \<noteq> frame_end j"
    and "results j = []"
    and "collated m aid \<noteq> []"
  shows "\<exists>m'. anim_handle_job_finished env m j = Returns () m'
     \<and> collated m' aid = collated m aid @ [last (collated m aid)]"
  using anim_step_nonterminal[OF assms(1-4), of env] assms(5,6)
  by (auto simp: collect_keyframe_def)

lemma anim_step_terminal:
  assumes "anim_keyframes_folder (animation m) = Some f"
    and "kind j = animation_batch"
    and "animation_id (params j) = aid"
    and "frame_index j = frame_end j"
  shows "\<exists>m'. anim_handle_job_finished env m j = Returns () m'
     \<and> ImportAnimation (collect_keyframe f j (collated m aid)) (frame_start j) \<in> set (effects m')
     \<and> anim_keyframes (animation m') aid = None"
proof -
  obtain fr st en where fr: "frame (params j) = (fr, st, en)"
    by (cases "frame (params j)") auto
  with assms(4) have "fr = en"
    by (simp add: frame_index_def frame_end_def)
  with assms(1-3) fr show ?thesis
    by (simp add: anim_handle_job_finished_def anim_import_animation'_def Let_def collated_def
        effect_def doc_import_animation_def frame_start_def)
qed

lemma anim_run_nonterminal:
  assumes "anim_keyframes_folder (animation m) = Some f"
    and "\<forall>j \<in> set js. kind j = animation_batch \<and> animation_id (params j) = aid
           \<and> frame_index j \<noteq> frame_end j"
  shows "\<exists>m'. anim_run env m js = Returns () m'
     \<and> anim_keyframes_folder (animation m') = Some f
     \<and> collated m' aid = fold (collect_keyframe f) js (collated m aid)"
  using assms
proof (induction js arbitrary: m)
  case Nil
  then show ?case by simp
next
  case (Cons j js)
  from anim_step_nonterminal[OF Cons.prems(1), of j aid env] Cons.prems(2)
  obtain m1 where m1: "anim_handle_job_finished env m j = Returns () m1"
    "anim_keyframes_folder (animation m1) = Some f"
    "collated m1 aid = collect_keyframe f j (collated m aid)"
    by auto
  from Cons.IH[OF m1(2)] Cons.prems(2)
  obtain m' where "anim_run env m1 js = Returns () m'"
    "anim_keyframes_folder (animation m') = Some f"
    "collated m' aid = fold (collect_keyframe f) js (collated m1 aid)"
    by auto
  with m1 show ?case by simp
qed

lemma anim_run_append:
  "anim_run env m (xs @ ys) =
     (case anim_run env m xs of
        Raises e m' \<Rightarrow> Raises e m'
      | Returns u m' \<Rightarrow> anim_run env m' ys)"
  by (induction xs arbitrary: m) (auto split: outcome.splits)

lemma fold_collect_keyframe:
  assumes "js = [] \<or> results (hd js) \<noteq> []"
  shows "length (fold (collect_keyframe f) js []) = length js
     \<and> (\<forall>k < length js.
           fold (collect_keyframe f) js [] ! k =
             (if results (js ! k) \<noteq> [] then FrameFile f (frame_index (js ! k)) ''.png''
              else fold (collect_keyframe f) js [] ! (k - 1)))"
  using assms
proof (induction js rule: rev_induct)
  case Nil
  then show ?case by simp
next
  case (snoc j js)
  let ?ks = "fold (collect_keyframe f) js []"
  have hd: "js = [] \<or> results (hd js) \<noteq> []"
    using snoc.prems by (cases js) auto
  from snoc.IH[OF hd] have len: "length ?ks = length js"
    and nth: "\<And>k. k < length js \<Longrightarrow>
           ?ks ! k = (if results (js ! k) \<noteq> [] then FrameFile f (frame_index (js ! k)) ''.png''
                      else ?ks ! (k - 1))"
    by auto
  have nonempty: "results j \<noteq> [] \<or> ?ks \<noteq> []"
  proof (cases js)
    case Nil
    with snoc.prems show ?thesis by simp
  next
    case (Cons a as)
    with len show ?thesis by auto
  qed
  define x where "x = (if results j \<noteq> [] then FrameFile f (frame_index j) ''.png'' else last ?ks)"
  have step: "fold (collect_keyframe f) (js @ [j]) [] = ?ks @ [x]"
    using nonempty by (auto simp: collect_keyframe_def x_def frame_index_def)
  have "(?ks @ [x]) ! k =
          (if results ((js @ [j]) ! k) \<noteq> [] then FrameFile f (frame_index ((js @ [j]) ! k)) ''.png''
           else (?ks @ [x]) ! (k - 1))" if "k < length (js @ [j])" for k
  proof (cases "k < length js")
    case True
    then have "k - 1 < length ?ks" using len by simp
    with True len nth[OF True] show ?thesis
      by (simp add: nth_append)
  next
    case False
    with that have k: "k = length js" by simp
    show ?thesis
    proof (cases "results j \<noteq> []")
      case True
      with k len show ?thesis by (simp add: nth_append x_def)
    next
      case False
      with nonempty have ne: "?ks \<noteq> []" by simp
      then have "last ?ks = ?ks ! (length js - 1)"
        using len by (simp add: last_conv_nth)
      moreover have "length js - 1 < length ?ks"
        using ne len by (cases js) auto
      ultimately show ?thesis
        using False k len by (simp add: nth_append x_def)
    qed
  qed
  with len show ?case
    unfolding step by simp
qed

lemma anim_step_cache_hit_any:
  assumes "anim_keyframes_folder (animation m) = Some f"
    and "kind j = animation_batch"
    and "animation_id (params j) = aid"
    and "results j = []"
    and "collated m aid \<noteq> []"
  shows "\<exists>m'. anim_handle_job_finished env m j = Returns () m'
     \<and> (frame_index j \<noteq> frame_end j \<longrightarrow>
           collated m' aid = collated m aid @ [last (collated m aid)])
     \<and> (frame_index j = frame_end j \<longrightarrow>
           ImportAnimation (collated m aid @ [last (collated m aid)]) (frame_start j)
             \<in> set (effects m'))"
proof (cases "frame_index j = frame_end j")
  case True
  from anim_step_terminal[OF assms(1-3) True, of env] assms(4,5) True show ?thesis
    by (auto simp: collect_keyframe_def)
next
  case False
  from anim_step_cache_hit[OF assms(1-3) False assms(4,5), of env] False show ?thesis
    by auto
qed

text \<open>
  C5 (as the code has it). A batch job that finishes with zero results repeats the last
  collected path only when a path has been collected for its animation id since that
  id's last import: the list then has one more entry, and it is what the import gets if
  the job is the terminal frame. So for the jobs of one animation that finish one after
  the other from an empty list, the terminal frame's job being the last to finish and
  the first job having a result, the imported sequence has one path per job: a job with
  a result contributes its own frame file, a job without one the entry before it. The
  record of the animation is then discarded.
\<close>

theorem animation_batch_collation:
  assumes "anim_keyframes_folder (animation m) = Some f"
  shows "(kind j = animation_batch \<and> animation_id (params j) = aid
          \<and> results j = [] \<and> collated m aid \<noteq> [] \<longrightarrow>
           (\<exists>m'. anim_handle_job_finished env m j = Returns () m'
              \<and> (frame_index j \<noteq> frame_end j \<longrightarrow>
                    collated m' aid = collated m aid @ [last (collated m aid)])
              \<and> (frame_index j = frame_end j \<longrightarrow>
                    ImportAnimation (collated m aid @ [last (collated m aid)]) (frame_start j)
                      \<in> set (effects m'))))
     \<and> ((\<forall>j \<in> set (js @ [jl]). kind j = animation_batch \<and> animation_id (params j) = aid)
          \<and> (\<forall>j \<in> set js. frame_index j \<noteq> frame_end j)
          \<and> frame_index jl = frame_end jl
          \<and> collated m aid = []
          \<and> results (hd (js @ [jl])) \<noteq> [] \<longrightarrow>
           (\<exists>m' ks. anim_run env m (js @ [jl]) = Returns () m'
              \<and> ImportAnimation ks (frame_start jl) \<in> set (effects m')
              \<and> length ks = length js + 1
              \<and> (\<forall>k < length ks.
                    ks ! k = (if results ((js @ [jl]) ! k) \<noteq> []
                              then FrameFile f (frame_index ((js @ [jl]) ! k)) ''.png''
                              else ks ! (k - 1)))
              \<and> anim_keyframes (animation m') aid = None))"
proof (intro conjI impI)
  assume "kind j = animation_batch \<and> animation_id (params j) = aid
          \<and> results j = [] \<and> collated m aid \<noteq> []"
  then show "\<exists>m'. anim_handle_job_finished env m j = Returns () m'
              \<and> (frame_index j \<noteq> frame_end j \<longrightarrow>
                    collated m' aid = collated m aid @ [last (collated m aid)])
              \<and> (frame_index j = frame_end j \<longrightarrow>
                    ImportAnimation (collated m aid @ [last (collated m aid)]) (frame_start j)
                      \<in> set (effects m'))"
    using anim_step_cache_hit_any[OF assms, of j aid env] by blast
next
  assume a: "(\<forall>j \<in> set (js @ [jl]). kind j = animation_batch \<and> animation_id (params j) = aid)
          \<and> (\<forall>j \<in> set js. frame_index j \<noteq> frame_end j)
          \<and> frame_index jl = frame_end jl
          \<and> collated m aid = []
          \<and> results (hd (js @ [jl])) \<noteq> []"
  then have pre: "\<forall>j \<in> set js. kind j = animation_batch \<and> animation_id (params j) = aid
           \<and> frame_index j \<noteq> frame_end j"
    by simp
  from anim_run_nonterminal[OF assms pre, of env]
  obtain m1 where m1: "anim_run env m js = Returns () m1"
    "anim_keyframes_folder (animation m1) = Some f"
    "collated m1 aid = fold (collect_keyframe f) js []"
    using a by auto
  have last: "kind jl = animation_batch" "animation_id (params jl) = aid"
    "frame_index jl = frame_end jl"
    using a by simp_all
  from anim_step_terminal[OF m1(2) last, of env]
  obtain m' where m': "anim_handle_job_finished env m1 jl = Returns () m'"
    "ImportAnimation (collect_keyframe f jl (collated m1 aid)) (frame_start jl) \<in> set (effects m')"
    "anim_keyframes (animation m') aid = None"
    by blast
  define ks where "ks = fold (collect_keyframe f) (js @ [jl]) []"
  have ks: "collect_keyframe f jl (collated m1 aid) = ks"
    by (simp add: ks_def m1(3))
  have run: "anim_run env m (js @ [jl]) = Returns () m'"
    by (simp add: anim_run_append m1(1) m'(1))
  from fold_collect_keyframe[of "js @ [jl]" f] a
  have "length ks = length js + 1"
    and "\<forall>k < length ks.
           ks ! k = (if results ((js @ [jl]) ! k) \<noteq> []
                     then FrameFile f (frame_index ((js @ [jl]) ! k)) ''.png''
                     else ks ! (k - 1))"
    by (simp_all add: ks_def)
  with run m'(2,3) ks
  show "\<exists>m' ks. anim_run env m (js @ [jl]) = Returns () m'
              \<and> ImportAnimation ks (frame_start jl) \<in> set (effects m')
              \<and> length ks = length js + 1
              \<and> (\<forall>k < length ks.
                    ks ! k = (if results ((js @ [jl]) ! k) \<noteq> []
                              then FrameFile f (frame_index ((js @ [jl]) ! k)) ''.png''
                              else ks ! (k - 1)))
              \<and> anim_keyframes (animation m') aid = None"
    by metis
qed

lemma list_of_length_4: "length xs = 4 \<Longrightarrow> xs = [xs ! 0, xs ! 1, xs ! 2, xs ! 3]"
  by (rule nth_equalityI) (auto simp: less_Suc_eq eval_nat_numeral)

theorem animation_batch_collation_witness:
  "\<exists>m'. anim_run (test_env 1) anim_model
          [anim_job 0 3 [10], anim_job 1 3 [11], anim_job 2 3 [], anim_job 3 3 [13]] =
        Returns () m'
     \<and> ImportAnimation
          [FrameFile (FramesFolder ''a.kra'' ''.animation'') 0 ''.png'',
           FrameFile (FramesFolder ''a.kra'' ''.animation'') 1 ''.png'',
           FrameFile (FramesFolder ''a.kra'' ''.animation'') 1 ''.png'',
           FrameFile (FramesFolder ''a.kra'' ''.animation'') 3 ''.png''] 0 \<in> set (effects m')
     \<and> anim_keyframes (animation m') ''a'' = None"
proof -
  let ?F = "FramesFolder ''a.kra'' ''.animation''"
  let ?js = "[anim_job 0 3 [10], anim_job 1 3 [11], anim_job 2 3 []]"
  let ?jl = "anim_job 3 3 [13]"
  have h1: "anim_keyframes_folder (animation anim_model) = Some ?F"
    by (simp add: anim_model_def)
  have h2: "\<forall>j \<in> set (?js @ [?jl]). kind j = animation_batch \<and> animation_id (params j) = ''a''"
    by (simp add: anim_job_def)
  have h3: "\<forall>j \<in> set ?js. frame_index j \<noteq> frame_end j"
    by (simp add: anim_job_def frame_index_def frame_end_def)
  have h4: "frame_index ?jl = frame_end ?jl"
    by (simp add: anim_job_def frame_index_def frame_end_def)
  have h5: "collated anim_model ''a'' = []"
    by (simp add: collated_def anim_model_def init_model_def)
  have h6: "results (hd (?js @ [?jl])) \<noteq> []"
    by (simp add: anim_job_def)
  from animation_batch_collation[OF h1, of _ "''a''" "test_env 1" ?js ?jl] h2 h3 h4 h5 h6
  obtain m' ks where run: "anim_run (test_env 1) anim_model (?js @ [?jl]) = Returns () m'"
    and imp: "ImportAnimation ks (frame_start ?jl) \<in> set (effects m')"
    and len: "length ks = 4"
    and nth: "\<forall>k < length ks.
           ks ! k = (if results ((?js @ [?jl]) ! k) \<noteq> []
                     then FrameFile ?F (frame_index ((?js @ [?jl]) ! k)) ''.png''
                     else ks ! (k - 1))"
    and gone: "anim_keyframes (animation m') ''a'' = None"
    by auto
  have "ks ! 0 = FrameFile ?F 0 ''.png''" "ks ! 1 = FrameFile ?F 1 ''.png''"
    "ks ! 2 = ks ! 1" "ks ! 3 = FrameFile ?F 3 ''.png''"
    using nth len by (simp_all add: anim_job_def frame_index_def)
  with list_of_length_4[OF len]
  have "ks = [FrameFile ?F 0 ''.png'', FrameFile ?F 1 ''.png'', FrameFile ?F 1 ''.png'',
              FrameFile ?F 3 ''.png'']"
    by simp
  with run imp gone show ?thesis
    by (auto simp: frame_start_def anim_job_def)
qed

theorem animation_batch_first_cache_hit_counterexample:
  "collated (final_model (anim_handle_job_finished (test_env 1) anim_model (anim_job 0 1 [])))
     ''a'' = []
   \<and> ImportAnimation [FrameFile (FramesFolder ''a.kra'' ''.animation'') 1 ''.png''] 0
       \<in> set (effects (final_model
            (anim_run (test_env 1) anim_model [anim_job 0 1 [], anim_job 1 1 [5]])))
   \<and> ImportAnimation [FrameFile (FramesFolder ''a.kra'' ''.animation'') 3 ''.png''] 0
       \<in> set (effects (final_model
            (anim_run (test_env 1) anim_model [anim_job 3 3 [13], anim_job 0 3 []])))
   \<and> collated (final_model
        (anim_run (test_env 1) anim_model [anim_job 3 3 [13], anim_job 0 3 []])) ''a'' = []"
  by (simp add: anim_handle_job_finished_def anim_import_animation'_def anim_model_def
      init_model_def anim_job_def collated_def collect_keyframe_def effect_def
      doc_import_animation_def Let_def)

subsection \<open>The finished handler\<close>

lemma find_entry_Some:
  "find_entry es jid = Some i \<Longrightarrow> i < length es \<and> job_id (es ! i) = Some jid"
proof (induction es arbitrary: i)
  case Nil
  then show ?case by simp
next
  case (Cons e es)
  show ?case
  proof (cases "job_id e = Some jid")
    case True
    with Cons.prems show ?thesis by simp
  next
    case False
    with Cons.prems obtain i' where "find_entry es jid = Some i'" "i = Suc i'"
      by auto
    with Cons.IH[of i'] show ?thesis by simp
  qed
qed

lemma add_control_layer_frame:
  "jobs (final_model (add_control_layer m job res)) = jobs m"
  "trace (final_model (add_control_layer m job res)) = trace m"
  by (simp_all add: add_control_layer_def insert_layer_def Let_def split: option.splits)

lemma add_upscale_layer_frame:
  "jobs (final_model (add_upscale_layer m job)) = jobs m"
  "trace (final_model (add_upscale_layer m job)) = trace m"
  by (simp_all add: add_upscale_layer_def insert_layer_def effect_def Let_def split: option.splits)

lemma live_handle_job_finished_frame:
  "jobs (final_model (live_handle_job_finished env m job)) = jobs m"
  "trace (final_model (live_handle_job_finished env m job)) = trace m"
  "preview_layer (final_model (live_handle_job_finished env m job)) = preview_layer m"
proof -
  let ?r = "set_result m (results job ! 0) (bounds (params job))"
  have "jobs (final_model (live_handle_job_finished env m job)) = jobs m
      \<and> trace (final_model (live_handle_job_finished env m job)) = trace m
      \<and> preview_layer (final_model (live_handle_job_finished env m job)) = preview_layer m"
  proof (cases ?r)
    case (Raises e m1)
    with set_result_frame(6,7,9)[of m "results job ! 0" "bounds (params job)"]
    show ?thesis
      by (simp add: live_handle_job_finished_def Let_def toggle_frame generate_live_frame)
  next
    case (Returns u m1)
    with set_result_frame(6,7,9)[of m "results job ! 0" "bounds (params job)"]
    show ?thesis
      by (simp add: live_handle_job_finished_def Let_def toggle_frame generate_live_frame)
  qed
  then show "jobs (final_model (live_handle_job_finished env m job)) = jobs m"
    "trace (final_model (live_handle_job_finished env m job)) = trace m"
    "preview_layer (final_model (live_handle_job_finished env m job)) = preview_layer m"
    by simp_all
qed

lemma anim_handle_job_finished_frame:
  "jobs (final_model (anim_handle_job_finished env m job)) = jobs m"
  "trace (final_model (anim_handle_job_finished env m job)) = trace m"
  "preview_layer (final_model (anim_handle_job_finished env m job)) = preview_layer m"
  by (cases "frame (params job)";
      simp add: anim_handle_job_finished_def anim_import_animation'_def doc_import_animation_def
        effect_def Let_def report_error_frame split: option.splits)+

lemma jobs_notify_finished_frame:
  "jobs (final_model (jobs_notify_finished env m i)) = notify_finished (jobs m) i"
  "trace (final_model (jobs_notify_finished env m i)) =
     trace m @ Q_notify_finished i #
       (if is_pending (entries (jobs m) ! i)
        then [Emit_job_finished (entries (notify_finished (jobs m) i) ! i)] else [])"
  "preview_layer (final_model (jobs_notify_finished env m i)) = preview_layer m"
proof -
  let ?m1 = "called (m\<lparr>jobs := notify_finished (jobs m) i\<rparr>) (Q_notify_finished i)"
  let ?job = "entries (jobs ?m1) ! i"
  let ?m2 = "called ?m1 (Emit_job_finished ?job)"
  let ?l = "live_handle_job_finished env ?m2 ?job"
  have all: "jobs (final_model (jobs_notify_finished env m i)) = notify_finished (jobs m) i
     \<and> trace (final_model (jobs_notify_finished env m i)) =
         trace m @ Q_notify_finished i #
           (if is_pending (entries (jobs m) ! i)
            then [Emit_job_finished (entries (notify_finished (jobs m) i) ! i)] else [])
     \<and> preview_layer (final_model (jobs_notify_finished env m i)) = preview_layer m"
  proof (cases "is_pending (entries (jobs m) ! i)")
    case False
    then show ?thesis
      by (simp add: jobs_notify_finished_def Let_def called_def)
  next
    case True
    have l: "jobs (final_model ?l) = notify_finished (jobs m) i"
      "trace (final_model ?l) = trace m @ [Q_notify_finished i, Emit_job_finished ?job]"
      "preview_layer (final_model ?l) = preview_layer m"
      by (simp_all add: live_handle_job_finished_frame called_def)
    have j: "?job = entries (notify_finished (jobs m) i) ! i"
      by (simp add: called_def)
    show ?thesis
    proof (cases ?l)
      case (Raises e m3)
      with l True show ?thesis
        by (simp add: jobs_notify_finished_def Let_def j)
    next
      case (Returns u m3)
      with l True anim_handle_job_finished_frame[of env m3 ?job] show ?thesis
        by (simp add: jobs_notify_finished_def Let_def j)
    qed
  qed
  from all show "jobs (final_model (jobs_notify_finished env m i)) = notify_finished (jobs m) i"
    by simp
  from all show "trace (final_model (jobs_notify_finished env m i)) =
     trace m @ Q_notify_finished i #
       (if is_pending (entries (jobs m) ! i)
        then [Emit_job_finished (entries (notify_finished (jobs m) i) ! i)] else [])"
    by simp
  from all show "preview_layer (final_model (jobs_notify_finished env m i)) = preview_layer m"
    by simp
qed

lemma show_preview_frame:
  "jobs (final_model (show_preview m jid idx)) = jobs m"
  "trace (final_model (show_preview m jid idx)) = trace m"
  by (simp_all add: show_preview_def insert_layer_def effect_def Let_def split: option.splits)

lemma jobs_select_frame:
  "entries (jobs (final_model (jobs_select m jid idx))) = entries (jobs m)"
  "trace (final_model (jobs_select m jid idx)) = trace m @ [Q_select jid idx]"
  by (simp_all add: jobs_select_def update_preview_def show_preview_frame hide_preview_def
      called_def select_def effect_def Let_def split: option.splits)

lemma add_control_layer_returns:
  "control job = Some c \<Longrightarrow> kind job = control_layer \<Longrightarrow>
   \<exists>l m'. add_control_layer m job res = Returns l m'"
  by (auto simp: add_control_layer_def insert_layer_def Let_def)

lemma add_upscale_layer_returns:
  "kind job = upscaling \<Longrightarrow> results job \<noteq> [] \<Longrightarrow>
   \<exists>m'. add_upscale_layer m job = Returns () m'"
  by (simp add: add_upscale_layer_def insert_layer_def Let_def split: option.splits)






lemma handle_finished_outcomes:
  assumes q1: "q1 = (if images msg \<noteq> [] then set_results (jobs m) i (images msg) else jobs m)"
    and t1: "t1 = trace m @ (if images msg \<noteq> [] then [Q_set_results i (images msg)] else [])"
    and q2: "q2 = notify_finished q1 i"
    and t2: "t2 = t1 @ Q_notify_finished i #
               (if is_pending (entries q1 ! i) then [Emit_job_finished (entries q2 ! i)] else [])"
    and fm: "fm = final_model (handle_finished env m msg i)"
  shows "((\<exists>e. handle_finished env m msg i = Raises e fm) \<and> jobs fm = q1 \<and> trace fm = t1
          \<and> ((kind (entries q1 ! i) = control_layer \<and> control (entries q1 ! i) = None)
             \<or> (kind (entries q1 ! i) = upscaling \<and> results (entries q1 ! i) = [])))
     \<or> (kind (entries q1 ! i) \<noteq> diffusion
          \<and> (((\<exists>e. handle_finished env m msg i = Raises e fm) \<and> jobs fm = q2 \<and> trace fm = t2)
             \<or> (handle_finished env m msg i = Returns () fm
                  \<and> jobs fm = remove q2 i \<and> trace fm = t2 @ [Q_remove i])))
     \<or> (kind (entries q1 ! i) = diffusion \<and> entries (jobs fm) = entries q2
          \<and> (trace fm = t2 \<or> (\<exists>jid. trace fm = t2 @ [Q_select jid 0])))"
proof -
  define m1 where "m1 = (if images msg \<noteq> []
                then called (m\<lparr>jobs := set_results (jobs m) i (images msg)\<rparr>)
                       (Q_set_results i (images msg))
                else m)"
  define job where "job = entries (jobs m1) ! i"
  define r2 where "r2 = (if kind job = control_layer then
                  (case control job of
                     None \<Rightarrow> Raises (AssertionError []) m1
                   | Some c \<Rightarrow>
                       (case add_control_layer m1 job (msg_result msg) of
                          Raises e m' \<Rightarrow> Raises e m'
                        | Returns l m' \<Rightarrow>
                            Returns () (m'\<lparr>controls := (controls m')
                                              (c := (controls m' c)\<lparr>layer_id := l\<rparr>)\<rparr>)))
                else if kind job = upscaling then add_upscale_layer m1 job
                else Returns () m1)"
  have hf: "handle_finished env m msg i =
     (case r2 of
           Raises e m2 \<Rightarrow> Raises e m2
         | Returns u m2 \<Rightarrow>
             (case jobs_notify_finished env (m2\<lparr>progress := 1\<rparr>) i of
                Raises e m3 \<Rightarrow> Raises e m3
              | Returns u m3 \<Rightarrow>
                  if kind job \<noteq> diffusion
                  then Returns () (called (m3\<lparr>jobs := remove (jobs m3) i\<rparr>) (Q_remove i))
                  else if auto_preview (settings env) \<and> preview_layer m3 = None
                          \<and> job_id job \<noteq> None \<and> job_id job \<noteq> Some []
                  then jobs_select m3 (the (job_id job)) 0
                  else Returns () m3))"
    unfolding handle_finished_def Let_def r2_def job_def m1_def by (rule refl)
  have m1: "jobs m1 = q1" "trace m1 = t1"
    by (simp_all add: m1_def q1 t1 called_def)
  have jobq: "job = entries q1 ! i"
    by (simp add: job_def m1)
  have r2: "jobs (final_model r2) = q1" "trace (final_model r2) = t1"
    using add_control_layer_frame[of m1 job "msg_result msg"] add_upscale_layer_frame[of m1 job]
    by (auto simp: r2_def m1 split: option.splits outcome.splits)
  show ?thesis
  proof (cases r2)
    case (Raises e m2)
    have "(kind job = control_layer \<and> control job = None)
        \<or> (kind job = upscaling \<and> results job = [])"
    proof (rule ccontr)
      assume n: "\<not> ((kind job = control_layer \<and> control job = None)
        \<or> (kind job = upscaling \<and> results job = []))"
      show False
      proof (cases "kind job = control_layer")
        case True
        with n obtain c where c: "control job = Some c" by auto
        from add_control_layer_returns[OF c True, of m1 "msg_result msg"] True c Raises
        show False by (auto simp: r2_def)
      next
        case nc: False
        show False
        proof (cases "kind job = upscaling")
          case True
          with n have "results job \<noteq> []" by simp
          from add_upscale_layer_returns[OF True this, of m1] True nc Raises
          show False by (auto simp: r2_def)
        next
          case False
          with nc Raises show False by (simp add: r2_def)
        qed
      qed
    qed
    with Raises r2 hf fm jobq show ?thesis by simp
  next
    case (Returns u m2)
    let ?n = "jobs_notify_finished env (m2\<lparr>progress := 1\<rparr>) i"
    have n: "jobs (final_model ?n) = q2" "trace (final_model ?n) = t2"
      using r2 Returns by (simp_all add: jobs_notify_finished_frame q2 t2)
    show ?thesis
    proof (cases ?n)
      case r: (Raises e m3)
      with n have m3: "jobs m3 = q2" "trace m3 = t2" by simp_all
      have fm3: "handle_finished env m msg i = Raises e m3"
        using hf Returns r by simp
      show ?thesis
      proof (cases "kind job = diffusion")
        case True
        with fm3 m3 fm jobq show ?thesis by simp
      next
        case False
        with fm3 m3 fm jobq show ?thesis by simp
      qed
    next
      case r: (Returns u' m3)
      with n have m3: "jobs m3 = q2" "trace m3 = t2" by simp_all
      show ?thesis
      proof (cases "kind job = diffusion")
        case False
        with hf Returns r have "handle_finished env m msg i =
            Returns () (called (m3\<lparr>jobs := remove (jobs m3) i\<rparr>) (Q_remove i))"
          by simp
        with m3 fm False jobq show ?thesis
          by (simp add: called_def)
      next
        case True
        show ?thesis
        proof (cases "auto_preview (settings env) \<and> preview_layer m3 = None
                          \<and> job_id job \<noteq> None \<and> job_id job \<noteq> Some []")
          case sel: True
          with hf Returns r True
          have "handle_finished env m msg i = jobs_select m3 (the (job_id job)) 0"
            by simp
          with m3 fm jobs_select_frame[of m3 "the (job_id job)" 0] True jobq show ?thesis
            by auto
        next
          case sel: False
          with hf Returns r True have "handle_finished env m msg i = Returns () m3"
            by auto
          with m3 fm True jobq show ?thesis by simp
        qed
      qed
    qed
  qed
qed

lemma finished_queue_shape:
  assumes "i < length (entries (jobs m))"
    and "q1 = (if images msg \<noteq> [] then set_results (jobs m) i (images msg) else jobs m)"
    and "q2 = notify_finished q1 i"
  shows "kind (entries q1 ! i) = kind (entries (jobs m) ! i)"
    and "is_pending (entries q1 ! i) = is_pending (entries (jobs m) ! i)"
    and "\<exists>j2. entries q2 = (entries (jobs m))[i := j2]
           \<and> kind j2 = kind (entries (jobs m) ! i)
           \<and> job_id j2 = job_id (entries (jobs m) ! i)"
    and "images msg \<noteq> [] \<Longrightarrow> is_pending (entries (jobs m) ! i) \<Longrightarrow>
           entries q2 = (entries (jobs m))
             [i := (entries (jobs m) ! i)\<lparr>results := images msg, state := finished\<rparr>]"
proof -
  show k: "kind (entries q1 ! i) = kind (entries (jobs m) ! i)"
    using assms(1,2) by (simp add: set_results_def update_job_def)
  show p: "is_pending (entries q1 ! i) = is_pending (entries (jobs m) ! i)"
    using assms(1,2) by (simp add: set_results_def update_job_def is_pending_def)
  show "\<exists>j2. entries q2 = (entries (jobs m))[i := j2]
           \<and> kind j2 = kind (entries (jobs m) ! i)
           \<and> job_id j2 = job_id (entries (jobs m) ! i)"
  proof (intro exI[of _ "entries q2 ! i"] conjI)
    show "entries q2 = (entries (jobs m))[i := entries q2 ! i]"
      using assms by (auto simp: notify_finished_def set_results_def update_job_def)
    show "kind (entries q2 ! i) = kind (entries (jobs m) ! i)"
      using assms by (auto simp: notify_finished_def set_results_def update_job_def)
    show "job_id (entries q2 ! i) = job_id (entries (jobs m) ! i)"
      using assms by (auto simp: notify_finished_def set_results_def update_job_def)
  qed
  show "entries q2 = (entries (jobs m))
             [i := (entries (jobs m) ! i)\<lparr>results := images msg, state := finished\<rparr>]"
    if "images msg \<noteq> []" "is_pending (entries (jobs m) ! i)"
    using that assms
    by (simp add: notify_finished_def set_results_def update_job_def is_pending_def)
qed

lemma handle_message_finished:
  "event msg = ev_finished \<Longrightarrow> find_job (jobs m) (msg_job_id msg) = Some i \<Longrightarrow>
   handle_message env m msg = handle_finished env m msg i"
  by (simp add: handle_message_def)


lemmas eval_finished_defs =
  handle_message_def handle_finished_def jobs_notify_finished_def
  live_handle_job_finished_def anim_handle_job_finished_def add_upscale_layer_def
  add_control_layer_def jobs_select_def update_preview_def show_preview_def hide_preview_def
  insert_layer_def find_job_def set_results_def notify_finished_def remove_def select_def
  update_job_def is_pending_def called_def effect_def b_extent_def
  one_job_model_def one_job_def finished_msg_def init_model_def test_env_def Let_def



lemma results_only_when_finished_update:
  assumes "results_only_when_finished q"
    and "entries q' = (entries q)[i := j]"
    and "state j = finished"
  shows "results_only_when_finished q'"
proof -
  have "set (entries q') \<subseteq> insert j (set (entries q))"
    unfolding assms(2) by (rule set_update_subset_insert)
  with assms(1,3) show ?thesis
    by (auto simp: results_only_when_finished_def)
qed

lemma results_only_when_finished_remove:
  assumes "results_only_when_finished q"
  shows "results_only_when_finished (remove q i)"
proof -
  have "set (take i (entries q) @ drop (Suc i) (entries q)) \<subseteq> set (entries q)"
    using set_take_subset[of i "entries q"] set_drop_subset[of "Suc i" "entries q"] by auto
  with assms show ?thesis
    by (auto simp: results_only_when_finished_def remove_def)
qed

text \<open>
  What is left out of the invariant below: a job that is already \<open>cancelled\<close> (an
  interrupted or error message has been handled for it, so that a finished message would
  be a second terminal message) keeps its state, under the terminal states of the queue,
  and still receives the images.
\<close>

lemma finished_after_cancel_keeps_cancelled:
  "results (entries (jobs (final_model
       (handle_message (test_env 1) (one_job_model diffusion cancelled)
          (finished_msg ''j'' [3])))) ! 0) = [3]
   \<and> state (entries (jobs (final_model
       (handle_message (test_env 1) (one_job_model diffusion cancelled)
          (finished_msg ''j'' [3])))) ! 0) = cancelled"
  by (simp add: eval_finished_defs)

text \<open>
  C2. For every job and every finished message with images: \<open>set_results\<close> is the first
  queue call of the handler and \<open>notify_finished\<close>, whenever it is reached, is the next
  one; it is reached unless the control assertion of \<open>handle_message\<close> fails, and always
  when the handler returns. Every job handed to the observers of the finished transition
  has the images as results and is \<open>finished\<close>, and a queued or running job is handed to
  them. Once \<open>notify_finished\<close> has been called for a job that was not cancelled before,
  a \<open>diffusion\<close> job sits in the queue finished and with its results, and a queue in
  which only finished jobs had results is again such a queue.
\<close>

theorem finished_sets_results_first:
  assumes "event msg = ev_finished"
    and "images msg \<noteq> []"
    and "find_job (jobs m) (msg_job_id msg) = Some i"
  shows "take 1 (new_trace m (final_model (handle_message env m msg)))
           = [Q_set_results i (images msg)]
     \<and> (Q_notify_finished i \<in> set (new_trace m (final_model (handle_message env m msg))) \<longrightarrow>
          take 2 (new_trace m (final_model (handle_message env m msg))) =
            [Q_set_results i (images msg), Q_notify_finished i])
     \<and> ((kind (entries (jobs m) ! i) = control_layer \<longrightarrow> control (entries (jobs m) ! i) \<noteq> None)
          \<longrightarrow> Q_notify_finished i \<in> set (new_trace m (final_model (handle_message env m msg))))
     \<and> (\<forall>m'. handle_message env m msg = Returns () m' \<longrightarrow>
          Q_notify_finished i \<in> set (new_trace m m'))
     \<and> (\<forall>j. Emit_job_finished j \<in> set (new_trace m (final_model (handle_message env m msg)))
          \<longrightarrow> j = (entries (jobs m) ! i)\<lparr>results := images msg, state := finished\<rparr>)
     \<and> (is_pending (entries (jobs m) ! i)
          \<and> Q_notify_finished i \<in> set (new_trace m (final_model (handle_message env m msg)))
          \<longrightarrow> take 3 (new_trace m (final_model (handle_message env m msg))) =
            [Q_set_results i (images msg), Q_notify_finished i,
             Emit_job_finished
               ((entries (jobs m) ! i)\<lparr>results := images msg, state := finished\<rparr>)])
     \<and> (state (entries (jobs m) ! i) \<noteq> cancelled
          \<and> Q_notify_finished i \<in> set (new_trace m (final_model (handle_message env m msg)))
          \<longrightarrow> (kind (entries (jobs m) ! i) = diffusion \<longrightarrow>
                entries (jobs (final_model (handle_message env m msg))) = (entries (jobs m))
                  [i := (entries (jobs m) ! i)\<lparr>results := images msg, state := finished\<rparr>])
             \<and> (results_only_when_finished (jobs m) \<longrightarrow>
                  results_only_when_finished (jobs (final_model (handle_message env m msg)))))"
proof -
  define q1 where "q1 = (if images msg \<noteq> [] then set_results (jobs m) i (images msg) else jobs m)"
  define t1 where "t1 = trace m @ (if images msg \<noteq> [] then [Q_set_results i (images msg)] else [])"
  define q2 where "q2 = notify_finished q1 i"
  define t2 where "t2 = t1 @ Q_notify_finished i #
               (if is_pending (entries q1 ! i) then [Emit_job_finished (entries q2 ! i)] else [])"
  define fm where "fm = final_model (handle_finished env m msg i)"
  define job where "job = entries (jobs m) ! i"
  define j' where "j' = job\<lparr>results := images msg, state := finished\<rparr>"
  define S where "S = Q_set_results i (images msg)"
  define N where "N = Q_notify_finished i"
  define em where "em = (if is_pending job then [Emit_job_finished j'] else [])"
  define nt where "nt = new_trace m fm"
  note out = handle_finished_outcomes[OF q1_def t1_def q2_def t2_def fm_def]
  have hm: "handle_message env m msg = handle_finished env m msg i"
    using assms(1,3) by (rule handle_message_finished)
  from assms(3) have i: "i < length (entries (jobs m))"
    using find_entry_Some[of "entries (jobs m)" "msg_job_id msg" i] by (simp add: find_job_def)
  note shape = finished_queue_shape[OF i q1_def q2_def]
  have q1i: "control (entries q1 ! i) = control job" "results (entries q1 ! i) = images msg"
    "kind (entries q1 ! i) = kind job"
    using i assms(2) by (simp_all add: q1_def job_def set_results_def update_job_def)
  have pend: "is_pending (entries q1 ! i) = is_pending job"
    using shape(2) by (simp add: job_def)
  have q2i: "entries q2 ! i = j'" if "is_pending job"
    using shape(4)[OF assms(2)] that i by (simp add: job_def j'_def)
  have t1': "t1 = trace m @ [S]"
    using assms(2) by (simp add: t1_def S_def)
  have t2': "t2 = trace m @ S # N # em"
    using q2i by (simp add: t2_def t1' pend em_def N_def)
  have SN: "S \<noteq> N" "\<And>j. Emit_job_finished j \<noteq> S" "\<And>j. Emit_job_finished j \<noteq> N"
    "\<And>j. Emit_job_finished j \<noteq> Q_remove i" "\<And>j jid. Emit_job_finished j \<noteq> Q_select jid 0"
    by (simp_all add: S_def N_def)
  have e2: "entries q2 = (entries (jobs m))[i := j']"
    if "state job \<noteq> cancelled"
  proof (cases "is_pending job")
    case True
    with shape(4)[OF assms(2)] show ?thesis by (simp add: job_def j'_def)
  next
    case False
    with that have "state job = finished"
      by (cases "state job") (auto simp: is_pending_def)
    then have "job\<lparr>results := images msg\<rparr> = j'"
      by (simp add: j'_def)
    with False assms(2) show ?thesis
      using pend
      by (simp add: q2_def q1_def notify_finished_def set_results_def update_job_def job_def)
  qed
  have st: "state j' = finished"
    by (simp add: j'_def)
  from out consider
    (post) "nt = [S]" "\<forall>m'. handle_finished env m msg i \<noteq> Returns () m'"
        "(kind job = control_layer \<and> control job = None)"
    | (obs) "nt = S # N # em" "kind job \<noteq> diffusion" "jobs fm = q2"
        "\<forall>m'. handle_finished env m msg i \<noteq> Returns () m'"
    | (rem) "nt = S # N # em @ [Q_remove i]" "kind job \<noteq> diffusion" "jobs fm = remove q2 i"
    | (keep) "nt = S # N # em \<or> (\<exists>jid. nt = S # N # em @ [Q_select jid 0])"
        "entries (jobs fm) = entries q2"
    using assms(2) q1i
    by (auto simp: nt_def new_trace_def t1' t2')
  then have all: "take 1 nt = [S]
     \<and> (N \<in> set nt \<longrightarrow> take 2 nt = [S, N])
     \<and> ((kind job = control_layer \<longrightarrow> control job \<noteq> None) \<longrightarrow> N \<in> set nt)
     \<and> (\<forall>m'. handle_finished env m msg i = Returns () m' \<longrightarrow> N \<in> set nt)
     \<and> (\<forall>j. Emit_job_finished j \<in> set nt \<longrightarrow> j = j')
     \<and> (is_pending job \<and> N \<in> set nt \<longrightarrow> take 3 nt = [S, N, Emit_job_finished j'])
     \<and> (state job \<noteq> cancelled \<and> N \<in> set nt \<longrightarrow>
          (kind job = diffusion \<longrightarrow> entries (jobs fm) = (entries (jobs m))[i := j'])
          \<and> (results_only_when_finished (jobs m) \<longrightarrow> results_only_when_finished (jobs fm)))"
  proof cases
    case post
    then show ?thesis using SN by simp
  next
    case obs
    have "results_only_when_finished (jobs fm)"
      if "results_only_when_finished (jobs m)" "state job \<noteq> cancelled"
      unfolding obs(3) using results_only_when_finished_update[OF that(1) e2[OF that(2)] st] .
    with obs SN show ?thesis by (auto simp: em_def)
  next
    case rem
    have "results_only_when_finished (jobs fm)"
      if "results_only_when_finished (jobs m)" "state job \<noteq> cancelled"
      unfolding rem(3)
      by (rule results_only_when_finished_remove)
        (rule results_only_when_finished_update[OF that(1) e2[OF that(2)] st])
    with rem SN show ?thesis by (auto simp: em_def)
  next
    case keep
    have inv: "results_only_when_finished (jobs fm)"
      if "results_only_when_finished (jobs m)" "state job \<noteq> cancelled"
      using results_only_when_finished_update[OF that(1) _ st, of "jobs fm" i] keep(2)
        e2[OF that(2)]
      by simp
    have ent: "entries (jobs fm) = (entries (jobs m))[i := j']" if "state job \<noteq> cancelled"
      using keep(2) e2[OF that] by simp
    from keep(1) have tr: "take 1 nt = [S]" "take 2 nt = [S, N]" "N \<in> set nt"
      "is_pending job \<longrightarrow> take 3 nt = [S, N, Emit_job_finished j']"
      "\<forall>j. Emit_job_finished j \<in> set nt \<longrightarrow> j = j'"
      using SN by (auto simp: em_def)
    with inv ent show ?thesis by blast
  qed
  have "fm = m'" if "handle_finished env m msg i = Returns () m'" for m'
    using that by (simp add: fm_def)
  with all have all': "take 1 nt = [S]
     \<and> (N \<in> set nt \<longrightarrow> take 2 nt = [S, N])
     \<and> ((kind job = control_layer \<longrightarrow> control job \<noteq> None) \<longrightarrow> N \<in> set nt)
     \<and> (\<forall>m'. handle_finished env m msg i = Returns () m' \<longrightarrow> N \<in> set (new_trace m m'))
     \<and> (\<forall>j. Emit_job_finished j \<in> set nt \<longrightarrow> j = j')
     \<and> (is_pending job \<and> N \<in> set nt \<longrightarrow> take 3 nt = [S, N, Emit_job_finished j'])
     \<and> (state job \<noteq> cancelled \<and> N \<in> set nt \<longrightarrow>
          (kind job = diffusion \<longrightarrow> entries (jobs fm) = (entries (jobs m))[i := j'])
          \<and> (results_only_when_finished (jobs m) \<longrightarrow> results_only_when_finished (jobs fm)))"
    by (auto simp: nt_def)
  then show ?thesis
    unfolding hm nt_def fm_def j'_def job_def S_def N_def .
qed

theorem finished_sets_results_first_witness:
  "is_pending (entries (jobs (one_job_model diffusion running)) ! 0)
   \<and> state (entries (jobs (one_job_model diffusion running)) ! 0) \<noteq> cancelled
   \<and> (\<exists>m'. handle_message (test_env 1) (one_job_model diffusion running)
               (finished_msg ''j'' [3]) = Returns () m'
          \<and> entries (jobs m') = [(one_job diffusion running)\<lparr>results := [3], state := finished\<rparr>]
          \<and> take 3 (new_trace (one_job_model diffusion running) m') =
               [Q_set_results 0 [3], Q_notify_finished 0,
                Emit_job_finished ((one_job diffusion running)\<lparr>results := [3], state := finished\<rparr>)])"
proof -
  let ?m = "one_job_model diffusion running"
  let ?msg = "finished_msg ''j'' [3]"
  have e: "event ?msg = ev_finished" and im: "images ?msg \<noteq> []" "images ?msg = [3]"
    by (simp_all add: finished_msg_def)
  have f: "find_job (jobs ?m) (msg_job_id ?msg) = Some 0"
    by (simp add: eval_finished_defs)
  have p: "is_pending (entries (jobs ?m) ! 0)" "state (entries (jobs ?m) ! 0) \<noteq> cancelled"
    by (simp_all add: is_pending_def one_job_model_def one_job_def)
  have k: "kind (entries (jobs ?m) ! 0) = diffusion"
    "entries (jobs ?m) = [one_job diffusion running]"
    by (simp_all add: one_job_model_def one_job_def)
  have "\<exists>m'. handle_message (test_env 1) ?m ?msg = Returns () m'"
    by (simp add: eval_finished_defs)
  then obtain m' where m': "handle_message (test_env 1) ?m ?msg = Returns () m'"
    by blast
  from finished_sets_results_first[OF e im(1) f, of "test_env 1"] m' k im(2) p
  have "entries (jobs m') = [(one_job diffusion running)\<lparr>results := [3], state := finished\<rparr>]"
    and "take 3 (new_trace ?m m') =
               [Q_set_results 0 [3], Q_notify_finished 0,
                Emit_job_finished ((one_job diffusion running)\<lparr>results := [3], state := finished\<rparr>)]"
    by simp_all
  with p m' show ?thesis by simp
qed

end
